theory Spec2Isabelle
  imports Complex_Main "HOL-Library.Multiset"
begin

section \<open>Conventions of the embedding\<close>

text \<open>
  The pipeline of the repository (chunking, embedding, vector store, indexing run,
  retrieval gate) is embedded function by function. What the Python does beyond
  returning a value is made explicit:
  \<^item> an exception raised by the repository's code is a value \<open>Inl e\<close> of \<open>error + 'a\<close>;
  \<^item> the \<^verbatim>\<open>while\<close> loop of \<^verbatim>\<open>split_text_into_chunks\<close> has no evident bound, so it is
    a \<^theory_text>\<open>partial_function (option)\<close>: \<open>None\<close> is a call that never returns (on a
    machine, one that runs until its memory is used up);
  \<^item> requests sent to the embedding service and to the vector store are appended to
    a log (\<open>effects\<close>) that every effectful function takes and returns;
  \<^item> the libraries the code calls (the tiktoken tokenizer, \<^verbatim>\<open>uuid.uuid5\<close>, the
    embedding service, the vector store, the PDF reader) are parameters of the model.
    Printing is not modelled.
  Python strings are \<open>string\<close>; a character is read as a code point below 256.
  Python integers are \<open>int\<close>. A similarity score is a \<open>real\<close>: the code only compares
  scores (\<^verbatim>\<open>max\<close>, \<^verbatim>\<open>>=\<close>), and on floats other than NaN these comparisons are those
  of the reals the floats denote.
\<close>

datatype error = ValueError string | FileNotFoundError string | ServiceError string

section \<open>Python built-ins used by the code\<close>

text \<open>\<^verbatim>\<open>str.isspace\<close> for one character below code point 256.\<close>

definition isspace :: "char \<Rightarrow> bool" where
  "isspace c = (let n = (of_char c :: nat) in
     (9 \<le> n \<and> n \<le> 13) \<or> (28 \<le> n \<and> n \<le> 32) \<or> n = 133 \<or> n = 160)"

text \<open>\<^verbatim>\<open>str.strip()\<close>: leading and trailing whitespace removed.\<close>

definition strip :: "string \<Rightarrow> string" where
  "strip s = rev (dropWhile isspace (rev (dropWhile isspace s)))"

definition digit_char :: "nat \<Rightarrow> char" where
  "digit_char d = char_of (48 + d)"

fun str_nat :: "nat \<Rightarrow> string" where
  "str_nat n = (if n < 10 then [digit_char n] else str_nat (n div 10) @ [digit_char (n mod 10)])"

text \<open>The decimal text an f-string gives for an integer.\<close>

definition str_int :: "int \<Rightarrow> string" where
  "str_int i = (if i < 0 then CHR ''-'' # str_nat (nat (- i)) else str_nat (nat i))"

text \<open>
  \<^verbatim>\<open>s.replace(old, new)\<close> for a non-empty \<open>old\<close> (the code calls it with \<^verbatim>\<open>'.pdf'\<close>):
  every occurrence, scanning from the left.
\<close>

function str_replace :: "string \<Rightarrow> string \<Rightarrow> string \<Rightarrow> string" where
  "str_replace old new s =
     (if s = [] \<or> old = [] then s
      else if take (length old) s = old then new @ str_replace old new (drop (length old) s)
      else hd s # str_replace old new (tl s))"
  by pat_completeness auto
termination
  by (relation "measure (\<lambda>(old, new, s). length s)") (auto simp: neq_Nil_conv)

text \<open>
  A slice \<^verbatim>\<open>xs[i:j]\<close>: a negative bound counts from the end, and every bound is
  clamped to the list.
\<close>

definition slice_bound :: "int \<Rightarrow> nat \<Rightarrow> nat" where
  "slice_bound i n = (if i < 0 then nat (max (i + int n) 0) else min (nat i) n)"

definition py_slice :: "'a list \<Rightarrow> int \<Rightarrow> int \<Rightarrow> 'a list" where
  "py_slice xs i j =
     (let a = slice_bound i (length xs); b = slice_bound j (length xs)
      in take (b - a) (drop a xs))"

section \<open>utils/chunking.py\<close>

text \<open>
  The tokenizer returned by \<^verbatim>\<open>get_tokenizer()\<close> is a parameter: \<open>encode\<close> maps a text
  to its token ids and \<open>decode\<close> maps token ids back to text. Both are taken as total.
\<close>

record tokenizer =
  encode :: "string \<Rightarrow> nat list"
  decode :: "nat list \<Rightarrow> string"

record TextChunk =
  tc_id :: string
  tc_text :: string
  tc_source_pdf :: string
  tc_page :: int
  tc_token_count :: int

definition CHUNK_SIZE :: int where
  "CHUNK_SIZE = 800"

definition CHUNK_OVERLAP :: int where
  "CHUNK_OVERLAP = 100"

definition count_tokens :: "tokenizer \<Rightarrow> string \<Rightarrow> int" where
  "count_tokens tk s = int (length (encode tk s))"

text \<open>
  \<^verbatim>\<open>generate_chunk_id\<close>. The parameter \<open>uuid5_hex\<close> stands for
  \<^verbatim>\<open>uuid.uuid5(uuid.NAMESPACE_DNS, base).hex\<close> as a function of \<open>base\<close>.
\<close>

definition generate_chunk_id :: "(string \<Rightarrow> string) \<Rightarrow> string \<Rightarrow> int \<Rightarrow> int \<Rightarrow> string" where
  "generate_chunk_id uuid5_hex source_pdf page chunk_idx =
     (let base = source_pdf @ ''_'' @ str_int page @ ''_'' @ str_int chunk_idx;
          suffix = take 8 (uuid5_hex base)
      in str_replace ''.pdf'' '''' source_pdf @ ''__p'' @ str_int page
           @ ''__c'' @ str_int chunk_idx @ ''__'' @ suffix)"

text \<open>The variables of the \<^verbatim>\<open>while\<close> loop of \<^verbatim>\<open>split_text_into_chunks\<close>.\<close>

record loop_state =
  start_idx :: int
  chunk_index :: int
  chunks :: "TextChunk list"

text \<open>
  One pass through the body of the loop (lines 96 to 118): the new state, and whether
  the \<^verbatim>\<open>break\<close> of line 118 was taken.
\<close>

definition loop_body ::
  "tokenizer \<Rightarrow> (string \<Rightarrow> string) \<Rightarrow> nat list \<Rightarrow> string \<Rightarrow> int \<Rightarrow> int \<Rightarrow> int
     \<Rightarrow> loop_state \<Rightarrow> loop_state \<times> bool" where
  "loop_body tk uuid5_hex tokens source_pdf page chunk_size chunk_overlap st =
     (let total_tokens = int (length tokens);
          end_idx = min (start_idx st + chunk_size) total_tokens;
          chunk_tokens = py_slice tokens (start_idx st) end_idx;
          chunk_text = strip (decode tk chunk_tokens);
          st1 = (if chunk_text \<noteq> []
                 then st\<lparr>chunks := chunks st @
                         [\<lparr>tc_id = generate_chunk_id uuid5_hex source_pdf page (chunk_index st),
                           tc_text = chunk_text,
                           tc_source_pdf = source_pdf,
                           tc_page = page,
                           tc_token_count = int (length chunk_tokens)\<rparr>],
                        chunk_index := chunk_index st + 1\<rparr>
                 else st);
          st2 = st1\<lparr>start_idx := end_idx - chunk_overlap\<rparr>
      in (st2, start_idx st2 \<ge> end_idx))"

partial_function (option) split_loop ::
  "tokenizer \<Rightarrow> (string \<Rightarrow> string) \<Rightarrow> nat list \<Rightarrow> string \<Rightarrow> int \<Rightarrow> int \<Rightarrow> int
     \<Rightarrow> loop_state \<Rightarrow> TextChunk list option" where
  "split_loop tk uuid5_hex tokens source_pdf page chunk_size chunk_overlap st =
     (if start_idx st < int (length tokens)
      then (case loop_body tk uuid5_hex tokens source_pdf page chunk_size chunk_overlap st of
              (st', stop) \<Rightarrow>
                if stop then Some (chunks st')
                else split_loop tk uuid5_hex tokens source_pdf page chunk_size chunk_overlap st')
      else Some (chunks st))"

definition split_text_into_chunks ::
  "tokenizer \<Rightarrow> (string \<Rightarrow> string) \<Rightarrow> string \<Rightarrow> string \<Rightarrow> int \<Rightarrow> int \<Rightarrow> int
     \<Rightarrow> TextChunk list option" where
  "split_text_into_chunks tk uuid5_hex txt source_pdf page chunk_size chunk_overlap =
     (if strip txt = [] then Some []
      else
        let tokens = encode tk txt; total_tokens = int (length tokens)
        in if total_tokens \<le> chunk_size
           then Some [\<lparr>tc_id = generate_chunk_id uuid5_hex source_pdf page 0,
                       tc_text = strip txt,
                       tc_source_pdf = source_pdf,
                       tc_page = page,
                       tc_token_count = total_tokens\<rparr>]
           else split_loop tk uuid5_hex tokens source_pdf page chunk_size chunk_overlap
                  \<lparr>start_idx = 0, chunk_index = 0, chunks = []\<rparr>)"

text \<open>
  The state at the head of the loop after \<open>n\<close> full passes, when the loop makes that
  many without leaving (\<open>None\<close> when it has left before). It observes the list
  \<^verbatim>\<open>chunks\<close> while the loop is running.
\<close>

fun loop_after ::
  "nat \<Rightarrow> tokenizer \<Rightarrow> (string \<Rightarrow> string) \<Rightarrow> nat list \<Rightarrow> string \<Rightarrow> int \<Rightarrow> int \<Rightarrow> int
     \<Rightarrow> loop_state \<Rightarrow> loop_state option" where
  "loop_after 0 tk uuid5_hex tokens source_pdf page chunk_size chunk_overlap st = Some st"
| "loop_after (Suc n) tk uuid5_hex tokens source_pdf page chunk_size chunk_overlap st =
     (if start_idx st < int (length tokens)
      then (case loop_body tk uuid5_hex tokens source_pdf page chunk_size chunk_overlap st of
              (st', stop) \<Rightarrow>
                if stop then None
                else loop_after n tk uuid5_hex tokens source_pdf page chunk_size chunk_overlap st')
      else None)"

record PageContent =
  pc_filename :: string
  pc_page_number :: int
  pc_text :: string

record PDFDocument =
  doc_filename :: string
  doc_pages :: "PageContent list"

definition chunk_page :: "tokenizer \<Rightarrow> (string \<Rightarrow> string) \<Rightarrow> PageContent \<Rightarrow> TextChunk list option" where
  "chunk_page tk uuid5_hex p =
     split_text_into_chunks tk uuid5_hex (pc_text p) (pc_filename p) (pc_page_number p)
       CHUNK_SIZE CHUNK_OVERLAP"

text \<open>The \<^verbatim>\<open>for\<close> loop of \<^verbatim>\<open>chunk_document\<close>, with the list \<^verbatim>\<open>chunks\<close> as accumulator.\<close>

fun chunk_pages ::
  "tokenizer \<Rightarrow> (string \<Rightarrow> string) \<Rightarrow> PageContent list \<Rightarrow> TextChunk list \<Rightarrow> TextChunk list option" where
  "chunk_pages tk uuid5_hex [] acc = Some acc"
| "chunk_pages tk uuid5_hex (p # ps) acc =
     (case chunk_page tk uuid5_hex p of
        None \<Rightarrow> None
      | Some page_chunks \<Rightarrow> chunk_pages tk uuid5_hex ps (acc @ page_chunks))"

definition chunk_document :: "tokenizer \<Rightarrow> (string \<Rightarrow> string) \<Rightarrow> PDFDocument \<Rightarrow> TextChunk list option" where
  "chunk_document tk uuid5_hex document = chunk_pages tk uuid5_hex (doc_pages document) []"

text \<open>The \<^verbatim>\<open>for\<close> loop of \<^verbatim>\<open>chunk_documents\<close>, with \<^verbatim>\<open>all_chunks\<close> as accumulator.\<close>

fun chunk_docs ::
  "tokenizer \<Rightarrow> (string \<Rightarrow> string) \<Rightarrow> PDFDocument list \<Rightarrow> TextChunk list \<Rightarrow> TextChunk list option" where
  "chunk_docs tk uuid5_hex [] acc = Some acc"
| "chunk_docs tk uuid5_hex (d # ds) acc =
     (case chunk_document tk uuid5_hex d of
        None \<Rightarrow> None
      | Some doc_chunks \<Rightarrow> chunk_docs tk uuid5_hex ds (acc @ doc_chunks))"

definition chunk_documents ::
  "tokenizer \<Rightarrow> (string \<Rightarrow> string) \<Rightarrow> PDFDocument list \<Rightarrow> TextChunk list option" where
  "chunk_documents tk uuid5_hex documents = chunk_docs tk uuid5_hex documents []"

section \<open>Environment, external services and their request log\<close>

text \<open>
  \<open>environ\<close> is the process environment after \<^verbatim>\<open>load_dotenv()\<close>. A \<open>services\<close> record
  holds the answers of the two external services: the embedding endpoint
  (\<^verbatim>\<open>client.embeddings.create\<close>, answering a batch of texts with index-tagged items or
  failing), the statistics of the vector index (\<^verbatim>\<open>describe_index_stats\<close>) and its
  write path (\<^verbatim>\<open>index.upsert\<close>, \<open>None\<close> when the request is accepted). The type \<open>'v\<close> is
  the type of an embedding vector. An \<open>effects\<close> record lists the requests the code has
  sent, oldest first.
\<close>

type_synonym environ = "string \<rightharpoonup> string"

record 'v embedding_item =
  item_index :: int
  item_embedding :: 'v

record 'v index_vector =
  vec_id :: string
  vec_values :: 'v
  vec_text :: string
  vec_source_pdf :: string
  vec_page :: int

record 'v services =
  embeddings_create :: "string list \<Rightarrow> error + 'v embedding_item list"
  describe_index_stats :: "error + (string \<rightharpoonup> int)"
  index_upsert :: "'v index_vector list \<Rightarrow> error option"

record 'v effects =
  embedding_requests :: "string list list"
  upsert_requests :: "'v index_vector list list"

text \<open>
  The contract of the embedding service, which is external to the repository: what it
  owes for a batch, in the order of the batch. Item \<open>j\<close> carries the index \<open>j\<close> and the
  embedding \<open>emb t\<close> of the \<open>j\<close>-th text \<open>t\<close> of the batch, where the function \<open>emb\<close> is
  the embedding model. A service may answer with these items in any order. The
  definition is used to state what is assumed of a service, never by the code.
\<close>

definition tag_items :: "(string \<Rightarrow> 'v) \<Rightarrow> string list \<Rightarrow> 'v embedding_item list" where
  "tag_items emb batch =
     map (\<lambda>(j, t). \<lparr>item_index = int j, item_embedding = emb t\<rparr>) (zip [0..<length batch] batch)"

text \<open>\<^verbatim>\<open>os.getenv(name)\<close> followed by \<^verbatim>\<open>if not value: raise ValueError(msg)\<close>.\<close>

definition require_env :: "environ \<Rightarrow> string \<Rightarrow> string \<Rightarrow> error + string" where
  "require_env env name msg =
     (case env name of
        None \<Rightarrow> Inl (ValueError msg)
      | Some v \<Rightarrow> if v = [] then Inl (ValueError msg) else Inr v)"

section \<open>utils/embeddings.py\<close>

definition BATCH_SIZE :: nat where
  "BATCH_SIZE = 100"

text \<open>A client is represented by the key it was built with.\<close>

definition get_embedding_client :: "environ \<Rightarrow> error + string" where
  "get_embedding_client env =
     require_env env ''OPENROUTER_API_KEY'' ''OPENROUTER_API_KEY environment variable is not set''"

text \<open>
  The \<^verbatim>\<open>for i in range(0, total_texts, BATCH_SIZE)\<close> loop of
  \<^verbatim>\<open>generate_embeddings_batch\<close>, with \<open>i\<close> and \<^verbatim>\<open>all_embeddings\<close> as arguments.
  \<^verbatim>\<open>sorted(..., key=...)\<close> is a stable sort, as \<open>sort_key\<close> is.
\<close>

function embeddings_loop ::
  "'v services \<Rightarrow> string list \<Rightarrow> nat \<Rightarrow> 'v list \<Rightarrow> 'v effects \<Rightarrow> (error + 'v list) \<times> 'v effects" where
  "embeddings_loop svc texts i all_embeddings eff =
     (if i < length texts
      then
        let batch = py_slice texts (int i) (int (i + BATCH_SIZE));
            eff' = eff\<lparr>embedding_requests := embedding_requests eff @ [batch]\<rparr>
        in case embeddings_create svc batch of
             Inl e \<Rightarrow> (Inl e, eff')
           | Inr data \<Rightarrow>
               let sorted_data = sort_key item_index data;
                   batch_embeddings = map item_embedding sorted_data
               in embeddings_loop svc texts (i + BATCH_SIZE) (all_embeddings @ batch_embeddings) eff'
      else (Inr all_embeddings, eff))"
  by pat_completeness auto
termination
  by (relation "measure (\<lambda>(svc, texts, i, all_embeddings, eff). length texts - i)")
     (auto simp: BATCH_SIZE_def)

definition generate_embeddings_batch ::
  "environ \<Rightarrow> 'v services \<Rightarrow> string list \<Rightarrow> string option \<Rightarrow> 'v effects
     \<Rightarrow> (error + 'v list) \<times> 'v effects" where
  "generate_embeddings_batch env svc texts client eff =
     (case (case client of None \<Rightarrow> get_embedding_client env | Some c \<Rightarrow> Inr c) of
        Inl e \<Rightarrow> (Inl e, eff)
      | Inr c \<Rightarrow> embeddings_loop svc texts 0 [] eff)"

definition generate_chunk_embeddings ::
  "environ \<Rightarrow> 'v services \<Rightarrow> TextChunk list \<Rightarrow> string option \<Rightarrow> 'v effects
     \<Rightarrow> (error + (TextChunk \<times> 'v) list) \<times> 'v effects" where
  "generate_chunk_embeddings env svc cks client eff =
     (if cks = [] then (Inr [], eff)
      else
        case (case client of None \<Rightarrow> get_embedding_client env | Some c \<Rightarrow> Inr c) of
          Inl e \<Rightarrow> (Inl e, eff)
        | Inr c \<Rightarrow>
            (case generate_embeddings_batch env svc (map tc_text cks) (Some c) eff of
               (Inl e, eff') \<Rightarrow> (Inl e, eff')
             | (Inr embeddings, eff') \<Rightarrow> (Inr (zip cks embeddings), eff')))"

section \<open>utils/pinecone\_utils.py\<close>

definition UPSERT_BATCH_SIZE :: nat where
  "UPSERT_BATCH_SIZE = 100"

definition get_pinecone_client :: "environ \<Rightarrow> error + string" where
  "get_pinecone_client env =
     require_env env ''PINECONE_API_KEY'' ''PINECONE_API_KEY environment variable is not set''"

definition get_index_name :: "environ \<Rightarrow> error + string" where
  "get_index_name env =
     require_env env ''PINECONE_INDEX_NAME'' ''PINECONE_INDEX_NAME environment variable is not set''"

text \<open>The index handle is the pair of the client and the index name.\<close>

definition get_index :: "environ \<Rightarrow> string option \<Rightarrow> error + string \<times> string" where
  "get_index env client =
     (case (case client of None \<Rightarrow> get_pinecone_client env | Some c \<Rightarrow> Inr c) of
        Inl e \<Rightarrow> Inl e
      | Inr c \<Rightarrow>
          (case get_index_name env of
             Inl e \<Rightarrow> Inl e
           | Inr index_name \<Rightarrow> Inr (c, index_name)))"

definition is_index_empty :: "environ \<Rightarrow> 'v services \<Rightarrow> string option \<Rightarrow> error + bool" where
  "is_index_empty env svc client =
     (case get_index env client of
        Inl e \<Rightarrow> Inl e
      | Inr index \<Rightarrow>
          (case describe_index_stats svc of
             Inl e \<Rightarrow> Inl e
           | Inr stats \<Rightarrow>
               let total_vectors = (case stats ''total_vector_count'' of None \<Rightarrow> 0 | Some n \<Rightarrow> n)
               in Inr (total_vectors = 0)))"

definition get_index_stats ::
  "environ \<Rightarrow> 'v services \<Rightarrow> string option \<Rightarrow> error + (string \<rightharpoonup> int)" where
  "get_index_stats env svc client =
     (case get_index env client of
        Inl e \<Rightarrow> Inl e
      | Inr index \<Rightarrow> describe_index_stats svc)"

text \<open>The dictionary that \<^verbatim>\<open>upsert_chunks\<close> builds for one pair (lines 135 to 143).\<close>

definition make_vector :: "TextChunk \<Rightarrow> 'v \<Rightarrow> 'v index_vector" where
  "make_vector chunk embedding =
     \<lparr>vec_id = tc_id chunk,
      vec_values = embedding,
      vec_text = tc_text chunk,
      vec_source_pdf = tc_source_pdf chunk,
      vec_page = tc_page chunk\<rparr>"

text \<open>
  The batch loop of \<^verbatim>\<open>upsert_chunks\<close> (lines 147 to 153), with \<open>i\<close> and
  \<^verbatim>\<open>total_upserted\<close> as arguments. A request is logged when it is sent, whether the
  store accepts it or not.
\<close>

function upsert_loop ::
  "'v services \<Rightarrow> 'v index_vector list \<Rightarrow> nat \<Rightarrow> nat \<Rightarrow> 'v effects \<Rightarrow> (error + nat) \<times> 'v effects" where
  "upsert_loop svc vectors i total_upserted eff =
     (if i < length vectors
      then
        let batch = py_slice vectors (int i) (int (i + UPSERT_BATCH_SIZE));
            eff' = eff\<lparr>upsert_requests := upsert_requests eff @ [batch]\<rparr>
        in case index_upsert svc batch of
             Some e \<Rightarrow> (Inl e, eff')
           | None \<Rightarrow> upsert_loop svc vectors (i + UPSERT_BATCH_SIZE) (total_upserted + length batch) eff'
      else (Inr total_upserted, eff))"
  by pat_completeness auto
termination
  by (relation "measure (\<lambda>(svc, vectors, i, total_upserted, eff). length vectors - i)")
     (auto simp: UPSERT_BATCH_SIZE_def)

definition upsert_chunks ::
  "environ \<Rightarrow> 'v services \<Rightarrow> TextChunk list \<Rightarrow> 'v list \<Rightarrow> string option \<Rightarrow> 'v effects
     \<Rightarrow> (error + nat) \<times> 'v effects" where
  "upsert_chunks env svc cks embeddings client eff =
     (if length cks \<noteq> length embeddings
      then (Inl (ValueError ''Number of chunks must match number of embeddings''), eff)
      else
        case get_index env client of
          Inl e \<Rightarrow> (Inl e, eff)
        | Inr index \<Rightarrow>
            let vectors = map (\<lambda>(chunk, embedding). make_vector chunk embedding) (zip cks embeddings)
            in upsert_loop svc vectors 0 0 eff)"

section \<open>indexer.py\<close>

text \<open>
  \<^verbatim>\<open>run_indexing\<close>. The argument \<open>loaded\<close> is the outcome of
  \<^verbatim>\<open>load_all_pdfs(pdf_directory)\<close>, which reads the file system: the documents, or the
  error for a missing directory. The result is \<open>None\<close> when chunking never returns.
\<close>

definition run_indexing ::
  "environ \<Rightarrow> 'v services \<Rightarrow> tokenizer \<Rightarrow> (string \<Rightarrow> string) \<Rightarrow> error + PDFDocument list \<Rightarrow> bool
     \<Rightarrow> 'v effects \<Rightarrow> ((error + bool) \<times> 'v effects) option" where
  "run_indexing env svc tk uuid5_hex loaded force eff =
     (case get_pinecone_client env of
        Inl e \<Rightarrow> Some (Inl e, eff)
      | Inr pinecone_client \<Rightarrow>
     (case get_embedding_client env of
        Inl e \<Rightarrow> Some (Inl e, eff)
      | Inr embedding_client \<Rightarrow>
     (case (if force then Inr False
            else (case is_index_empty env svc (Some pinecone_client) of
                    Inl e \<Rightarrow> Inl e
                  | Inr index_empty \<Rightarrow> Inr (\<not> index_empty))) of
        Inl e \<Rightarrow> Some (Inl e, eff)
      | Inr True \<Rightarrow>
          (case get_index_stats env svc (Some pinecone_client) of
             Inl e \<Rightarrow> Some (Inl e, eff)
           | Inr stats \<Rightarrow> Some (Inr False, eff))
      | Inr False \<Rightarrow>
     (case loaded of
        Inl e \<Rightarrow> Some (Inl e, eff)
      | Inr documents \<Rightarrow>
          if documents = [] then Some (Inr False, eff)
          else
     (case chunk_documents tk uuid5_hex documents of
        None \<Rightarrow> None
      | Some cks \<Rightarrow>
          if cks = [] then Some (Inr False, eff)
          else
     (case generate_chunk_embeddings env svc cks (Some embedding_client) eff of
        (Inl e, eff1) \<Rightarrow> Some (Inl e, eff1)
      | (Inr chunk_embedding_pairs, eff1) \<Rightarrow>
          let indexed_chunks = map fst chunk_embedding_pairs;
              embeddings = map snd chunk_embedding_pairs
          in (case upsert_chunks env svc indexed_chunks embeddings (Some pinecone_client) eff1 of
                (Inl e, eff2) \<Rightarrow> Some (Inl e, eff2)
              | (Inr upserted_count, eff2) \<Rightarrow> Some (Inr True, eff2))))))))"

section \<open>app.py: the retrieval gate\<close>

record RetrievedChunk =
  rc_id :: string
  rc_text :: string
  rc_source_pdf :: string
  rc_page :: int
  rc_score :: real

text \<open>
  \<^verbatim>\<open>SIMILARITY_THRESHOLD = 0.3\<close>: the value of the float that the literal denotes, which is
  the double nearest to three tenths.
\<close>

definition SIMILARITY_THRESHOLD :: real where
  "SIMILARITY_THRESHOLD = 5404319552844595 / 18014398509481984"

text \<open>
  \<^verbatim>\<open>check_retrieval_quality\<close>. \<^verbatim>\<open>max\<close> runs over a non-empty sequence here: it keeps the
  first item and replaces it by each later item that is greater.
\<close>

fun check_retrieval_quality :: "RetrievedChunk list \<Rightarrow> bool" where
  "check_retrieval_quality [] = False"
| "check_retrieval_quality (c # cs) =
     (let best_score = foldl (\<lambda>best x. if x > best then x else best) (rc_score c) (map rc_score cs)
      in best_score \<ge> SIMILARITY_THRESHOLD)"

section \<open>Sample instances of the parameters\<close>

text \<open>
  Concrete stand-ins for the external parameters, used only to evaluate the model at
  concrete inputs: a tokenizer with one token per character, a stand-in for the UUID
  digest, an embedding service that answers each batch in reverse order, and an
  environment with every key set.
\<close>

definition char_tokenizer :: tokenizer where
  "char_tokenizer = \<lparr>encode = map of_char, decode = map char_of\<rparr>"

definition hex_char :: "nat \<Rightarrow> char" where
  "hex_char d = (if d < 10 then char_of (48 + d) else char_of (87 + d))"

definition sample_uuid5_hex :: "string \<Rightarrow> string" where
  "sample_uuid5_hex base =
     map (\<lambda>c. hex_char (of_char c mod 16)) (take 32 (rev base @ replicate 32 CHR ''0''))"

definition page2_text :: string where
  "page2_text = replicate 1650 CHR ''a''"

text \<open>
  A page of 1650 tokens under the sample tokenizer, chunked with size 800 and overlap
  100: the state of the loop after \<open>n\<close> passes.
\<close>

definition page2_run :: "nat \<Rightarrow> loop_state option" where
  "page2_run n =
     loop_after n char_tokenizer sample_uuid5_hex (encode char_tokenizer page2_text)
       ''report.pdf'' 2 800 100 \<lparr>start_idx = 0, chunk_index = 0, chunks = []\<rparr>"

definition reversing_services :: "(string \<Rightarrow> 'v) \<Rightarrow> int \<Rightarrow> 'v services" where
  "reversing_services emb n =
     \<lparr>embeddings_create = (\<lambda>batch. Inr (rev (tag_items emb batch))),
      describe_index_stats = Inr [''total_vector_count'' \<mapsto> n],
      index_upsert = (\<lambda>batch. None)\<rparr>"

definition sample_env :: environ where
  "sample_env = [''PINECONE_API_KEY'' \<mapsto> ''pk'', ''OPENROUTER_API_KEY'' \<mapsto> ''ok'',
                 ''PINECONE_INDEX_NAME'' \<mapsto> ''pdf-rag'']"

definition no_effects :: "'v effects" where
  "no_effects = \<lparr>embedding_requests = [], upsert_requests = []\<rparr>"

declare split_loop.simps [code]
declare str_nat.simps [simp del]
declare str_replace.simps [simp del]
declare embeddings_loop.simps [simp del]
declare upsert_loop.simps [simp del]

section \<open>Properties of the chunker\<close>

subsection \<open>Whitespace stripping\<close>

lemma dropWhile_idem: "dropWhile P (dropWhile P xs) = dropWhile P xs"
  by (induction xs) simp_all

lemma rev_dropWhile_rev_prefix: "xs = rev (dropWhile P (rev xs)) @ rev (takeWhile P (rev xs))"
proof -
  have "rev (rev xs) = rev (takeWhile P (rev xs) @ dropWhile P (rev xs))"
    by (simp only: takeWhile_dropWhile_id)
  then show ?thesis by (simp only: rev_append rev_rev_ident)
qed

lemma strip_idem: "strip (strip s) = strip s"
proof -
  define t where "t = dropWhile isspace s"
  define u where "u = rev (dropWhile isspace (rev t))"
  have su: "strip s = u" by (simp add: strip_def t_def u_def)
  have front: "dropWhile isspace u = u"
  proof (cases u)
    case Nil
    then show ?thesis by simp
  next
    case (Cons a as)
    have "t = u @ rev (takeWhile isspace (rev t))"
      unfolding u_def by (rule rev_dropWhile_rev_prefix)
    with Cons have "t = a # (as @ rev (takeWhile isspace (rev t)))" by simp
    then obtain rest where "t = a # rest" by blast
    then have "t \<noteq> []" and "hd t = a" by simp_all
    moreover from \<open>t \<noteq> []\<close> have "\<not> isspace (hd t)"
      unfolding t_def by (rule hd_dropWhile)
    ultimately show ?thesis using Cons by simp
  qed
  have rear: "dropWhile isspace (rev u) = rev u"
    by (simp add: u_def dropWhile_idem)
  show ?thesis unfolding su by (simp add: strip_def front rear)
qed

lemma strip_no_outer_space:
  assumes "s \<noteq> []" and "\<not> isspace (hd s)" and "\<not> isspace (last s)"
  shows "strip s = s"
proof -
  from assms have "dropWhile isspace s = s" by (cases s) simp_all
  moreover from assms have "dropWhile isspace (rev s) = rev s"
    by (cases "rev s") (simp_all add: last_rev[symmetric] hd_rev)
  ultimately show ?thesis by (simp add: strip_def)
qed

lemma strip_replicate_a: "0 < n \<Longrightarrow> strip (replicate n CHR ''a'') = replicate n CHR ''a''"
  by (rule strip_no_outer_space) (simp_all add: isspace_def hd_replicate last_replicate)

subsection \<open>Slices\<close>

lemma py_slice_nat: "py_slice xs (int i) (int j) = take (j - i) (drop i xs)"
  by (cases "i \<le> length xs"; cases "j \<le> length xs")
     (auto simp: py_slice_def slice_bound_def min_def)

lemma slice_window_width:
  assumes "0 \<le> w"
  shows "int (slice_bound (min (i + w) (int n)) n) - int (slice_bound i n) \<le> w"
  using assms unfolding slice_bound_def by (simp add: min_def max_def; linarith)

lemma length_py_slice_window:
  assumes "0 \<le> w"
  shows "int (length (py_slice xs i (min (i + w) (int (length xs))))) \<le> w"
proof -
  have "int (slice_bound (min (i + w) (int (length xs))) (length xs) - slice_bound i (length xs)) \<le> w"
    using slice_window_width[OF assms, of i "length xs"] assms by linarith
  moreover have "length (py_slice xs i (min (i + w) (int (length xs))))
        \<le> slice_bound (min (i + w) (int (length xs))) (length xs) - slice_bound i (length xs)"
    unfolding py_slice_def Let_def by simp
  ultimately show ?thesis by linarith
qed

subsection \<open>The loop of \<open>split_text_into_chunks\<close>\<close>

lemma loop_body_continues:
  assumes "0 < chunk_overlap"
  shows "snd (loop_body tk u tokens src pg chunk_size chunk_overlap st) = False"
    and "start_idx (fst (loop_body tk u tokens src pg chunk_size chunk_overlap st)) < int (length tokens)"
  using assms by (simp_all add: loop_body_def Let_def)

lemma loop_body_breaks:
  "chunk_overlap \<le> 0 \<Longrightarrow> snd (loop_body tk u tokens src pg chunk_size chunk_overlap st)"
  by (simp add: loop_body_def Let_def)

lemma split_loop_Some_stops:
  assumes "split_loop tk u tokens src pg chunk_size chunk_overlap st = Some r"
  shows "\<not> (0 < chunk_overlap \<and> start_idx st < int (length tokens))"
proof (rule split_loop.raw_induct
    [where P = "\<lambda>tk u tokens src pg chunk_size chunk_overlap st r.
                  \<not> (0 < chunk_overlap \<and> start_idx st < int (length tokens))", OF _ assms])
  fix rec :: "tokenizer \<Rightarrow> (string \<Rightarrow> string) \<Rightarrow> nat list \<Rightarrow> string \<Rightarrow> int \<Rightarrow> int \<Rightarrow> int
                \<Rightarrow> loop_state \<Rightarrow> TextChunk list option"
    and tk :: tokenizer and u :: "string \<Rightarrow> string" and tokens :: "nat list" and src :: string
    and pg chunk_size chunk_overlap :: int and st :: loop_state and r :: "TextChunk list"
  assume ih: "\<And>tk u tokens src pg chunk_size chunk_overlap st r.
                rec tk u tokens src pg chunk_size chunk_overlap st = Some r \<Longrightarrow>
                \<not> (0 < chunk_overlap \<and> start_idx st < int (length tokens))"
  assume step: "(if start_idx st < int (length tokens)
      then (case loop_body tk u tokens src pg chunk_size chunk_overlap st of
              (st', stop) \<Rightarrow>
                if stop then Some (chunks st')
                else rec tk u tokens src pg chunk_size chunk_overlap st')
      else Some (chunks st)) = Some r"
  show "\<not> (0 < chunk_overlap \<and> start_idx st < int (length tokens))"
  proof
    assume a: "0 < chunk_overlap \<and> start_idx st < int (length tokens)"
    obtain st' stop where b: "loop_body tk u tokens src pg chunk_size chunk_overlap st = (st', stop)"
      by (cases "loop_body tk u tokens src pg chunk_size chunk_overlap st")
    from a loop_body_continues[of chunk_overlap tk u tokens src pg chunk_size st] b
    have c: "stop = False" "start_idx st' < int (length tokens)" by simp_all
    from step a b c have "rec tk u tokens src pg chunk_size chunk_overlap st' = Some r" by simp
    from ih[OF this] a c show False by simp
  qed
qed

lemma split_loop_diverges:
  "0 < chunk_overlap \<Longrightarrow> start_idx st < int (length tokens) \<Longrightarrow>
     split_loop tk u tokens src pg chunk_size chunk_overlap st = None"
  using split_loop_Some_stops[of tk u tokens src pg chunk_size chunk_overlap st]
  by (cases "split_loop tk u tokens src pg chunk_size chunk_overlap st") auto

lemma split_loop_single_pass:
  "chunk_overlap \<le> 0 \<Longrightarrow> start_idx st < int (length tokens) \<Longrightarrow>
     split_loop tk u tokens src pg chunk_size chunk_overlap st
       = Some (chunks (fst (loop_body tk u tokens src pg chunk_size chunk_overlap st)))"
  using loop_body_breaks[of chunk_overlap tk u tokens src pg chunk_size st]
  by (subst split_loop.simps) (auto split: prod.splits)

lemma split_loop_exit:
  "\<not> start_idx st < int (length tokens) \<Longrightarrow>
     split_loop tk u tokens src pg chunk_size chunk_overlap st = Some (chunks st)"
  by (subst split_loop.simps) simp

text \<open>What one pass does to the list of chunks.\<close>

lemma chunks_loop_body:
  "chunks (fst (loop_body tk u tokens src pg chunk_size chunk_overlap st)) =
     (let chunk_tokens = py_slice tokens (start_idx st)
                           (min (start_idx st + chunk_size) (int (length tokens)));
          chunk_text = strip (decode tk chunk_tokens)
      in if chunk_text \<noteq> []
         then chunks st @ [\<lparr>tc_id = generate_chunk_id u src pg (chunk_index st),
                             tc_text = chunk_text, tc_source_pdf = src, tc_page = pg,
                             tc_token_count = int (length chunk_tokens)\<rparr>]
         else chunks st)"
  by (simp add: loop_body_def Let_def)

lemma chunk_index_loop_body:
  "chunk_index (fst (loop_body tk u tokens src pg chunk_size chunk_overlap st)) =
     (if strip (decode tk (py_slice tokens (start_idx st)
                            (min (start_idx st + chunk_size) (int (length tokens))))) \<noteq> []
      then chunk_index st + 1 else chunk_index st)"
  by (simp add: loop_body_def Let_def)

lemma start_idx_loop_body:
  "start_idx (fst (loop_body tk u tokens src pg chunk_size chunk_overlap st)) =
     min (start_idx st + chunk_size) (int (length tokens)) - chunk_overlap"
  by (simp add: loop_body_def Let_def)

text \<open>The outcomes of a call, by case.\<close>

lemma split_text_blank:
  "strip txt = [] \<Longrightarrow> split_text_into_chunks tk u txt src pg chunk_size chunk_overlap = Some []"
  by (simp add: split_text_into_chunks_def)

lemma split_text_single:
  "strip txt \<noteq> [] \<Longrightarrow> int (length (encode tk txt)) \<le> chunk_size \<Longrightarrow>
     split_text_into_chunks tk u txt src pg chunk_size chunk_overlap =
       Some [\<lparr>tc_id = generate_chunk_id u src pg 0, tc_text = strip txt, tc_source_pdf = src,
               tc_page = pg, tc_token_count = int (length (encode tk txt))\<rparr>]"
  by (simp add: split_text_into_chunks_def Let_def)

lemma split_text_loops:
  "strip txt \<noteq> [] \<Longrightarrow> encode tk txt \<noteq> [] \<Longrightarrow> chunk_size < int (length (encode tk txt)) \<Longrightarrow>
     0 < chunk_overlap \<Longrightarrow>
     split_text_into_chunks tk u txt src pg chunk_size chunk_overlap = None"
  by (simp add: split_text_into_chunks_def Let_def split_loop_diverges)

lemma split_text_one_pass:
  "strip txt \<noteq> [] \<Longrightarrow> chunk_size < int (length (encode tk txt)) \<Longrightarrow> chunk_overlap \<le> 0 \<Longrightarrow>
     split_text_into_chunks tk u txt src pg chunk_size chunk_overlap =
       (if encode tk txt = [] then Some []
        else Some (chunks (fst (loop_body tk u (encode tk txt) src pg chunk_size chunk_overlap
                     \<lparr>start_idx = 0, chunk_index = 0, chunks = []\<rparr>))))"
  by (simp add: split_text_into_chunks_def Let_def split_loop_single_pass split_loop_exit)

text \<open>
  With a positive overlap a pass never leaves the loop. On 1650 tokens with chunk size
  800 and overlap 100, whatever the tokens are, the window starts at 0, 700 and 1400,
  then at 1550, and stays there.
\<close>

lemma loop_after_pass:
  assumes "0 < chunk_overlap" and "start_idx st < int (length tokens)"
  shows "loop_after (Suc n) tk u tokens src pg chunk_size chunk_overlap st =
           loop_after n tk u tokens src pg chunk_size chunk_overlap
             (fst (loop_body tk u tokens src pg chunk_size chunk_overlap st))"
proof -
  obtain st' stop where b: "loop_body tk u tokens src pg chunk_size chunk_overlap st = (st', stop)"
    by (cases "loop_body tk u tokens src pg chunk_size chunk_overlap st")
  with loop_body_continues(1)[OF assms(1), of tk u tokens src pg chunk_size st]
  have "stop = False" by simp
  with b assms(2) show ?thesis by simp
qed

lemma start_idx_after_passes:
  assumes "length tokens = 1650"
  shows "map_option start_idx (loop_after 1 tk u tokens src pg 800 100 \<lparr>start_idx = 0, chunk_index = 0, chunks = []\<rparr>) = Some 700"
    and "map_option start_idx (loop_after 2 tk u tokens src pg 800 100 \<lparr>start_idx = 0, chunk_index = 0, chunks = []\<rparr>) = Some 1400"
    and "map_option start_idx (loop_after 3 tk u tokens src pg 800 100 \<lparr>start_idx = 0, chunk_index = 0, chunks = []\<rparr>) = Some 1550"
    and "map_option start_idx (loop_after 4 tk u tokens src pg 800 100 \<lparr>start_idx = 0, chunk_index = 0, chunks = []\<rparr>) = Some 1550"
proof -
  let ?body = "loop_body tk u tokens src pg 800 100"
  let ?s0 = "\<lparr>start_idx = 0, chunk_index = 0, chunks = []\<rparr>"
  have s1: "start_idx (fst (?body ?s0)) = 700"
    by (simp add: start_idx_loop_body assms)
  have s2: "start_idx (fst (?body (fst (?body ?s0)))) = 1400"
    by (simp add: start_idx_loop_body assms)
  have s3: "start_idx (fst (?body (fst (?body (fst (?body ?s0)))))) = 1550"
    by (simp add: start_idx_loop_body assms)
  have s4: "start_idx (fst (?body (fst (?body (fst (?body (fst (?body ?s0)))))))) = 1550"
    by (simp add: start_idx_loop_body assms)
  have p1: "loop_after (Suc n) tk u tokens src pg 800 100 ?s0 =
            loop_after n tk u tokens src pg 800 100 (fst (?body ?s0))" for n
    by (rule loop_after_pass) (simp_all add: assms)
  have p2: "loop_after (Suc n) tk u tokens src pg 800 100 (fst (?body ?s0)) =
            loop_after n tk u tokens src pg 800 100 (fst (?body (fst (?body ?s0))))" for n
    by (rule loop_after_pass) (simp_all add: assms s1)
  have p3: "loop_after (Suc n) tk u tokens src pg 800 100 (fst (?body (fst (?body ?s0)))) =
            loop_after n tk u tokens src pg 800 100 (fst (?body (fst (?body (fst (?body ?s0))))))" for n
    by (rule loop_after_pass) (simp_all add: assms s2)
  have p4: "loop_after (Suc n) tk u tokens src pg 800 100 (fst (?body (fst (?body (fst (?body ?s0)))))) =
            loop_after n tk u tokens src pg 800 100 (fst (?body (fst (?body (fst (?body (fst (?body ?s0))))))))" for n
    by (rule loop_after_pass) (simp_all add: assms s3)
  have n1: "(1::nat) = Suc 0" and n2: "(2::nat) = Suc (Suc 0)" and n3: "(3::nat) = Suc (Suc (Suc 0))"
    and n4: "(4::nat) = Suc (Suc (Suc (Suc 0)))"
    by simp_all
  show "map_option start_idx (loop_after 1 tk u tokens src pg 800 100 ?s0) = Some 700"
    unfolding n1 p1 by (simp add: s1)
  show "map_option start_idx (loop_after 2 tk u tokens src pg 800 100 ?s0) = Some 1400"
    unfolding n2 p1 p2 by (simp add: s2)
  show "map_option start_idx (loop_after 3 tk u tokens src pg 800 100 ?s0) = Some 1550"
    unfolding n3 p1 p2 p3 by (simp add: s3)
  show "map_option start_idx (loop_after 4 tk u tokens src pg 800 100 ?s0) = Some 1550"
    unfolding n4 p1 p2 p3 p4 by (simp add: s4)
qed

subsection \<open>Evaluation at the sample inputs\<close>

lemma char_of_97: "char_of (97::nat) = CHR ''a''"
  by code_simp

lemma encode_page2_text: "encode char_tokenizer page2_text = replicate 1650 97"
  by (simp add: char_tokenizer_def page2_text_def)

lemma strip_page2_text: "strip page2_text = page2_text"
  by (simp add: page2_text_def strip_replicate_a)

lemmas page2_eval =
  loop_body_def Let_def py_slice_def slice_bound_def char_tokenizer_def strip_replicate_a char_of_97

lemma page2_pass1:
  "loop_body char_tokenizer u (replicate 1650 97) src pg 800 100
     \<lparr>start_idx = 0, chunk_index = 0, chunks = []\<rparr> =
   (\<lparr>start_idx = 700, chunk_index = 1,
     chunks = [\<lparr>tc_id = generate_chunk_id u src pg 0, tc_text = replicate 800 CHR ''a'',
                tc_source_pdf = src, tc_page = pg, tc_token_count = 800\<rparr>]\<rparr>, False)"
  by (simp add: page2_eval)

lemma page2_pass2:
  "loop_body char_tokenizer u (replicate 1650 97) src pg 800 100
     \<lparr>start_idx = 700, chunk_index = 1, chunks = cs\<rparr> =
   (\<lparr>start_idx = 1400, chunk_index = 2,
     chunks = cs @ [\<lparr>tc_id = generate_chunk_id u src pg 1, tc_text = replicate 800 CHR ''a'',
                tc_source_pdf = src, tc_page = pg, tc_token_count = 800\<rparr>]\<rparr>, False)"
  by (simp add: page2_eval)

lemma page2_pass3:
  "loop_body char_tokenizer u (replicate 1650 97) src pg 800 100
     \<lparr>start_idx = 1400, chunk_index = 2, chunks = cs\<rparr> =
   (\<lparr>start_idx = 1550, chunk_index = 3,
     chunks = cs @ [\<lparr>tc_id = generate_chunk_id u src pg 2, tc_text = replicate 250 CHR ''a'',
                tc_source_pdf = src, tc_page = pg, tc_token_count = 250\<rparr>]\<rparr>, False)"
  by (simp add: page2_eval)

lemma page2_pass4:
  "loop_body char_tokenizer u (replicate 1650 97) src pg 800 100
     \<lparr>start_idx = 1550, chunk_index = k, chunks = cs\<rparr> =
   (\<lparr>start_idx = 1550, chunk_index = k + 1,
     chunks = cs @ [\<lparr>tc_id = generate_chunk_id u src pg k, tc_text = replicate 100 CHR ''a'',
                tc_source_pdf = src, tc_page = pg, tc_token_count = 100\<rparr>]\<rparr>, False)"
  by (simp add: page2_eval)

lemma loop_after_numeral:
  "loop_after (numeral k) tk u tokens src pg chunk_size chunk_overlap st =
     (if start_idx st < int (length tokens)
      then (case loop_body tk u tokens src pg chunk_size chunk_overlap st of
              (st', stop) \<Rightarrow>
                if stop then None
                else loop_after (pred_numeral k) tk u tokens src pg chunk_size chunk_overlap st')
      else None)"
  by (simp add: numeral_eq_Suc)

lemmas page2_passes = loop_after_numeral page2_pass1 page2_pass2 page2_pass3 page2_pass4

subsection \<open>Evaluation of identifiers and of \<open>strip\<close> at sample texts\<close>

lemma generate_chunk_id_sample_1_0:
  "generate_chunk_id sample_uuid5_hex ''doc.pdf'' 1 0 = ''doc__p1__c0__0f1f640e''"
  by code_simp

lemma strip_samples:
  "strip ''abcde'' = ''abcde''" "strip ''alpha'' = ''alpha''" "strip ''beta'' = ''beta''"
  "strip [CHR ''a'', CHR 0x0A] = ''a''" "strip '' '' = []" "strip ''  '' = []"
  by (simp_all add: strip_def isspace_def)

lemma generate_chunk_id_sample_1_1:
  "generate_chunk_id sample_uuid5_hex ''doc.pdf'' 1 1 = ''doc__p1__c1__1f1f640e''"
  by code_simp

lemma strip_samples_more: "strip ''ab'' = ''ab''" "strip ''a'' = ''a''" "strip '' a'' = ''a''"
  by (simp_all add: strip_def isspace_def)

lemma char_tokenizer_samples:
  "encode char_tokenizer ''ab'' = [97, 98]"
  "decode char_tokenizer [32, 32] = ''  ''"
  "decode char_tokenizer [32, 97] = '' a''"
  by (simp_all add: char_tokenizer_def) code_simp+

lemma char_tokenizer_samples_more:
  "encode char_tokenizer [CHR ''a'', CHR 0x0A] = [97, 10]"
  "encode char_tokenizer ''a'' = [97]"
  "encode char_tokenizer ''alpha'' = [97, 108, 112, 104, 97]"
  "encode char_tokenizer ''beta'' = [98, 101, 116, 97]"
  by (simp_all add: char_tokenizer_def)

subsection \<open>What a call returns\<close>

text \<open>
  A call that returns gives the empty list, or the single chunk of a text that fits,
  or, when the overlap is not positive, what the first pass of the loop has collected.
\<close>

lemma split_text_returns_cases:
  assumes "split_text_into_chunks tk u txt src pg chunk_size chunk_overlap = Some cks"
  shows "cks = []
    \<or> cks = [\<lparr>tc_id = generate_chunk_id u src pg 0, tc_text = strip txt, tc_source_pdf = src,
               tc_page = pg, tc_token_count = int (length (encode tk txt))\<rparr>]
         \<and> strip txt \<noteq> [] \<and> int (length (encode tk txt)) \<le> chunk_size
    \<or> (let chunk_tokens = py_slice (encode tk txt) 0 (min chunk_size (int (length (encode tk txt))))
        in cks = [\<lparr>tc_id = generate_chunk_id u src pg 0, tc_text = strip (decode tk chunk_tokens),
                    tc_source_pdf = src, tc_page = pg,
                    tc_token_count = int (length chunk_tokens)\<rparr>]
           \<and> strip (decode tk chunk_tokens) \<noteq> [])
         \<and> chunk_size < int (length (encode tk txt)) \<and> chunk_overlap \<le> 0"
proof (cases "strip txt = []")
  case True
  with assms show ?thesis by (simp add: split_text_blank)
next
  case False
  show ?thesis
  proof (cases "int (length (encode tk txt)) \<le> chunk_size")
    case True
    with False assms show ?thesis by (auto simp: split_text_single)
  next
    case long: False
    show ?thesis
    proof (cases "0 < chunk_overlap")
      case True
      with long False assms show ?thesis
        by (cases "encode tk txt = []")
           (simp_all add: split_text_into_chunks_def split_loop_exit split_loop_diverges)
    next
      case no: False
      with long False assms show ?thesis
        by (auto simp: split_text_one_pass chunks_loop_body Let_def split: if_splits)
    qed
  qed
qed

text \<open>
  With a chunk size that is not negative, no chunk counts more tokens than the chunk
  size, in the list a call returns and in the list the loop is building.
\<close>

lemma loop_body_size_bound:
  assumes "0 \<le> chunk_size" and "\<forall>c \<in> set (chunks st). tc_token_count c \<le> chunk_size"
  shows "\<forall>c \<in> set (chunks (fst (loop_body tk u tokens src pg chunk_size chunk_overlap st))).
           tc_token_count c \<le> chunk_size"
  using assms length_py_slice_window[OF assms(1), of tokens "start_idx st"]
  by (auto simp: chunks_loop_body Let_def)

lemma split_text_size_bound:
  assumes "0 \<le> chunk_size"
    and "split_text_into_chunks tk u txt src pg chunk_size chunk_overlap = Some cks"
    and "c \<in> set cks"
  shows "tc_token_count c \<le> chunk_size"
proof (cases "strip txt = []")
  case True
  with assms show ?thesis by (simp add: split_text_blank)
next
  case False
  show ?thesis
  proof (cases "int (length (encode tk txt)) \<le> chunk_size")
    case True
    with False assms show ?thesis by (auto simp: split_text_single)
  next
    case long: False
    show ?thesis
    proof (cases "0 < chunk_overlap")
      case True
      with long False assms show ?thesis
        by (cases "encode tk txt = []") (simp_all add: split_text_loops)
    next
      case no: False
      have "\<forall>c \<in> set (chunks (fst (loop_body tk u (encode tk txt) src pg chunk_size chunk_overlap
                     \<lparr>start_idx = 0, chunk_index = 0, chunks = []\<rparr>))). tc_token_count c \<le> chunk_size"
        by (rule loop_body_size_bound) (simp_all add: assms(1))
      with no long False assms show ?thesis
        by (auto simp: split_text_one_pass split: if_splits)
    qed
  qed
qed

subsection \<open>Invariants of the loop\<close>

text \<open>
  A property that holds before the loop and that every pass keeps holds in every state
  the loop reaches.
\<close>

lemma loop_after_invariant:
  assumes "loop_after n tk u tokens src pg chunk_size chunk_overlap st = Some st'"
    and "P st"
    and "\<And>s. P s \<Longrightarrow> P (fst (loop_body tk u tokens src pg chunk_size chunk_overlap s))"
  shows "P st'"
  using assms(1,2)
proof (induction n arbitrary: st)
  case 0
  then show ?case by simp
next
  case (Suc n)
  let ?next = "fst (loop_body tk u tokens src pg chunk_size chunk_overlap st)"
  from Suc.prems(1) have "loop_after n tk u tokens src pg chunk_size chunk_overlap ?next = Some st'"
    by (simp split: if_splits prod.splits)
  moreover from Suc.prems(2) have "P ?next" by (rule assms(3))
  ultimately show ?case by (rule Suc.IH)
qed

text \<open>
  The chunk index is the number of chunks appended so far, and the chunk at position
  \<open>i\<close> has the id of index \<open>i\<close>.
\<close>

lemma loop_body_ids:
  assumes "chunk_index st = int (length (chunks st))"
    and "\<forall>i < length (chunks st). tc_id (chunks st ! i) = generate_chunk_id u src pg (int i)"
  shows "chunk_index (fst (loop_body tk u tokens src pg chunk_size chunk_overlap st))
           = int (length (chunks (fst (loop_body tk u tokens src pg chunk_size chunk_overlap st))))"
    and "\<forall>i < length (chunks (fst (loop_body tk u tokens src pg chunk_size chunk_overlap st))).
            tc_id (chunks (fst (loop_body tk u tokens src pg chunk_size chunk_overlap st)) ! i)
              = generate_chunk_id u src pg (int i)"
  using assms by (auto simp: chunks_loop_body chunk_index_loop_body Let_def nth_append less_Suc_eq)

lemma loop_after_ids:
  assumes "loop_after n tk u tokens src pg chunk_size chunk_overlap
             \<lparr>start_idx = 0, chunk_index = 0, chunks = []\<rparr> = Some st"
  shows "\<forall>i < length (chunks st). tc_id (chunks st ! i) = generate_chunk_id u src pg (int i)"
proof -
  let ?P = "\<lambda>s. chunk_index s = int (length (chunks s))
              \<and> (\<forall>i < length (chunks s). tc_id (chunks s ! i) = generate_chunk_id u src pg (int i))"
  have "?P st"
  proof (rule loop_after_invariant[OF assms, where P = ?P])
    show "?P \<lparr>start_idx = 0, chunk_index = 0, chunks = []\<rparr>" by simp
    show "?P (fst (loop_body tk u tokens src pg chunk_size chunk_overlap s))" if "?P s" for s
      using that loop_body_ids[of s u src pg tk tokens chunk_size chunk_overlap] by blast
  qed
  then show ?thesis by blast
qed

text \<open>Every chunk the loop has appended has a text that is not empty and is stripped.\<close>

lemma loop_after_texts:
  assumes "loop_after n tk u tokens src pg chunk_size chunk_overlap
             \<lparr>start_idx = 0, chunk_index = 0, chunks = []\<rparr> = Some st"
  shows "\<forall>c \<in> set (chunks st). tc_text c \<noteq> [] \<and> strip (tc_text c) = tc_text c"
proof (rule loop_after_invariant[OF assms])
  show "\<forall>c \<in> set (chunks \<lparr>start_idx = 0, chunk_index = 0, chunks = []\<rparr>).
          tc_text c \<noteq> [] \<and> strip (tc_text c) = tc_text c"
    by simp
  show "\<forall>c \<in> set (chunks (fst (loop_body tk u tokens src pg chunk_size chunk_overlap s))).
          tc_text c \<noteq> [] \<and> strip (tc_text c) = tc_text c"
    if "\<forall>c \<in> set (chunks s). tc_text c \<noteq> [] \<and> strip (tc_text c) = tc_text c" for s
    using that by (auto simp: chunks_loop_body Let_def strip_idem)
qed

text \<open>With a chunk size that is not negative, no chunk the loop has appended is longer.\<close>

lemma loop_after_size_bound:
  assumes "loop_after n tk u tokens src pg chunk_size chunk_overlap
             \<lparr>start_idx = 0, chunk_index = 0, chunks = []\<rparr> = Some st"
    and "0 \<le> chunk_size"
  shows "\<forall>c \<in> set (chunks st). tc_token_count c \<le> chunk_size"
proof (rule loop_after_invariant[OF assms(1)])
  show "\<forall>c \<in> set (chunks \<lparr>start_idx = 0, chunk_index = 0, chunks = []\<rparr>). tc_token_count c \<le> chunk_size"
    by simp
  show "\<forall>c \<in> set (chunks (fst (loop_body tk u tokens src pg chunk_size chunk_overlap s))).
          tc_token_count c \<le> chunk_size"
    if "\<forall>c \<in> set (chunks s). tc_token_count c \<le> chunk_size" for s
    using assms(2) that by (rule loop_body_size_bound)
qed

text \<open>
  Two runs of the loop at small inputs: five letters with chunk size 3 and overlap 1,
  and two spaces before two letters with chunk size 2 and overlap 1.
\<close>

lemma sample_two_passes:
  "loop_after 2 char_tokenizer sample_uuid5_hex [97, 98, 99, 100, 101] ''doc.pdf'' 1 3 1
     \<lparr>start_idx = 0, chunk_index = 0, chunks = []\<rparr> =
   Some \<lparr>start_idx = 4, chunk_index = 2,
         chunks = [\<lparr>tc_id = ''doc__p1__c0__0f1f640e'', tc_text = ''abc'', tc_source_pdf = ''doc.pdf'',
                    tc_page = 1, tc_token_count = 3\<rparr>,
                   \<lparr>tc_id = ''doc__p1__c1__1f1f640e'', tc_text = ''cde'', tc_source_pdf = ''doc.pdf'',
                    tc_page = 1, tc_token_count = 3\<rparr>]\<rparr>"
  by code_simp

lemma sample_blank_first_window:
  "loop_after 2 char_tokenizer sample_uuid5_hex [32, 32, 97, 98] ''doc.pdf'' 1 2 1
     \<lparr>start_idx = 0, chunk_index = 0, chunks = []\<rparr> =
   Some \<lparr>start_idx = 2, chunk_index = 1,
         chunks = [\<lparr>tc_id = ''doc__p1__c0__0f1f640e'', tc_text = ''a'', tc_source_pdf = ''doc.pdf'',
                    tc_page = 1, tc_token_count = 2\<rparr>]\<rparr>"
  by code_simp

section \<open>Claims about the chunker\<close>

text \<open>
  C1 claims that \<^verbatim>\<open>split_text_into_chunks\<close> terminates on every text longer than the chunk
  size, for every overlap, because the loop stops when the start of the window no longer
  advances. The guard of line 117 compares \<^verbatim>\<open>start_idx = end_idx - chunk_overlap\<close> with
  \<^verbatim>\<open>end_idx\<close>, so it holds only for an overlap that is not positive, and the loop condition
  \<^verbatim>\<open>start_idx < total_tokens\<close> stays true for every positive overlap. The theorem states what
  the code does: for a non-blank text with more tokens than a positive chunk size and any
  positive overlap (below the chunk size or not), the call never returns.
\<close>

theorem split_text_into_chunks_never_returns:
  assumes "strip txt \<noteq> []"
    and "chunk_size < int (length (encode tk txt))"
    and "0 < chunk_size"
    and "0 < chunk_overlap"
  shows "split_text_into_chunks tk u txt src pg chunk_size chunk_overlap = None"
proof -
  from assms(2,3) have "encode tk txt \<noteq> []" by auto
  with assms show ?thesis
    by (simp add: split_text_into_chunks_def Let_def split_loop_diverges)
qed

text \<open>The theorem of C1 at a text of five tokens and chunk size 3, with overlap 1 and with overlap 3.\<close>

theorem split_text_into_chunks_never_returns_witness:
  "strip ''abcde'' \<noteq> [] \<and> 3 < int (length (encode char_tokenizer ''abcde'')) \<and> (0::int) < 3 \<and> (0::int) < 1
   \<and> split_text_into_chunks char_tokenizer sample_uuid5_hex ''abcde'' ''doc.pdf'' 1 3 1 = None
   \<and> split_text_into_chunks char_tokenizer sample_uuid5_hex ''abcde'' ''doc.pdf'' 1 3 3 = None"
proof -
  have h1: "strip ''abcde'' \<noteq> []" by (simp add: strip_samples)
  have h2: "3 < int (length (encode char_tokenizer ''abcde''))" by (simp add: char_tokenizer_def)
  show ?thesis
    using h1 h2
      split_text_into_chunks_never_returns[OF h1 h2, of 1 sample_uuid5_hex "''doc.pdf''" 1]
      split_text_into_chunks_never_returns[OF h1 h2, of 3 sample_uuid5_hex "''doc.pdf''" 1]
    by simp
qed

text \<open>
  C2 claims that a page of exactly 1650 tokens, chunked with size 800 and overlap 100,
  returns exactly three chunks of 800, 800 and 250 tokens from the windows that start at
  0, 700 and 1400. On every such page (not blank) the loop does cut these three windows,
  in this order, but it is then at start 1550, which is still below 1650, and goes on
  from there: the call never returns.
\<close>

theorem page_of_1650_tokens_never_returns:
  assumes "strip page_text \<noteq> []" and "length (encode tk page_text) = 1650"
  shows "split_text_into_chunks tk u page_text src pg 800 100 = None
    \<and> map_option start_idx (loop_after 1 tk u (encode tk page_text) src pg 800 100
          \<lparr>start_idx = 0, chunk_index = 0, chunks = []\<rparr>) = Some 700
    \<and> map_option start_idx (loop_after 2 tk u (encode tk page_text) src pg 800 100
          \<lparr>start_idx = 0, chunk_index = 0, chunks = []\<rparr>) = Some 1400
    \<and> map_option start_idx (loop_after 3 tk u (encode tk page_text) src pg 800 100
          \<lparr>start_idx = 0, chunk_index = 0, chunks = []\<rparr>) = Some 1550
    \<and> map_option start_idx (loop_after 4 tk u (encode tk page_text) src pg 800 100
          \<lparr>start_idx = 0, chunk_index = 0, chunks = []\<rparr>) = Some 1550"
proof -
  from assms(2) have "encode tk page_text \<noteq> []" by auto
  with assms have "split_text_into_chunks tk u page_text src pg 800 100 = None"
    by (intro split_text_loops) simp_all
  with start_idx_after_passes[OF assms(2), of tk u src pg] show ?thesis by simp
qed

text \<open>
  The theorem of C2 at the sample page of 1650 tokens, with the token counts of the
  chunks that the first three passes have appended.
\<close>

theorem page_of_1650_tokens_never_returns_witness:
  "strip page2_text \<noteq> []
   \<and> length (encode char_tokenizer page2_text) = 1650
   \<and> split_text_into_chunks char_tokenizer sample_uuid5_hex page2_text ''report.pdf'' 2 800 100 = None
   \<and> map_option start_idx (page2_run 1) = Some 700
   \<and> map_option start_idx (page2_run 2) = Some 1400
   \<and> map_option start_idx (page2_run 3) = Some 1550
   \<and> map_option (map tc_token_count \<circ> chunks) (page2_run 3) = Some [800, 800, 250]"
proof -
  have h1: "strip page2_text \<noteq> []"
    by (simp add: strip_page2_text) (simp add: page2_text_def)
  have h2: "length (encode char_tokenizer page2_text) = 1650"
    by (simp add: encode_page2_text)
  have h3: "map_option (map tc_token_count \<circ> chunks) (page2_run 3) = Some [800, 800, 250]"
    by (simp add: page2_run_def encode_page2_text page2_passes)
  from page_of_1650_tokens_never_returns[OF h1 h2, of sample_uuid5_hex "''report.pdf''" 2] h1 h2 h3
  show ?thesis by (simp add: page2_run_def)
qed

text \<open>
  C4 claims that every chunk has at most \<open>chunk_size\<close> tokens and that every chunk but
  the last of a page with several chunks has exactly \<open>chunk_size\<close> tokens. On the page
  of 1650 tokens the fourth pass of the loop appends a chunk of 100 tokens after the
  chunk of 250 tokens: the chunk of 250 tokens is not the last one and is shorter than
  the chunk size 800. (The bound itself holds, see \<open>loop_after_size_bound\<close>.)
\<close>

theorem third_chunk_not_final_and_short:
  "map_option (map tc_token_count \<circ> chunks) (page2_run 4) = Some [800, 800, 250, 100]"
  by (simp add: page2_run_def encode_page2_text page2_passes)

text \<open>
  C10: every chunk that \<^verbatim>\<open>split_text_into_chunks\<close> returns has a text that is not empty
  and that stripping leaves unchanged; an empty or whitespace-only text gives the empty
  list; in the loop, a window whose decoded text strips to the empty string adds no chunk
  and leaves the chunk index as it is; and every chunk in the list that the loop is
  building, after any number of passes, has a non-empty stripped text.
\<close>

theorem chunk_text_never_blank:
  "(strip blank = [] \<longrightarrow>
      split_text_into_chunks tk u blank src pg chunk_size chunk_overlap = Some [])
   \<and> (split_text_into_chunks tk u page_text src pg chunk_size chunk_overlap = Some cks \<longrightarrow>
        c \<in> set cks \<longrightarrow> tc_text c \<noteq> [] \<and> strip (tc_text c) = tc_text c)
   \<and> (strip (decode tk (py_slice tokens (start_idx st)
                (min (start_idx st + chunk_size) (int (length tokens))))) = [] \<longrightarrow>
        chunks (fst (loop_body tk u tokens src pg chunk_size chunk_overlap st)) = chunks st
        \<and> chunk_index (fst (loop_body tk u tokens src pg chunk_size chunk_overlap st)) = chunk_index st)
   \<and> (loop_after n tk u tokens src pg chunk_size chunk_overlap
         \<lparr>start_idx = 0, chunk_index = 0, chunks = []\<rparr> = Some st' \<longrightarrow>
        c' \<in> set (chunks st') \<longrightarrow> tc_text c' \<noteq> [] \<and> strip (tc_text c') = tc_text c')"
proof (intro conjI impI)
  assume "strip blank = []"
  then show "split_text_into_chunks tk u blank src pg chunk_size chunk_overlap = Some []"
    by (rule split_text_blank)
next
  assume r: "split_text_into_chunks tk u page_text src pg chunk_size chunk_overlap = Some cks"
    and c: "c \<in> set cks"
  from split_text_returns_cases[OF r] c
  show "tc_text c \<noteq> []" by (auto simp: Let_def)
  from split_text_returns_cases[OF r] c
  show "strip (tc_text c) = tc_text c" by (auto simp: Let_def strip_idem)
next
  assume "strip (decode tk (py_slice tokens (start_idx st)
                (min (start_idx st + chunk_size) (int (length tokens))))) = []"
  then show "chunks (fst (loop_body tk u tokens src pg chunk_size chunk_overlap st)) = chunks st"
    and "chunk_index (fst (loop_body tk u tokens src pg chunk_size chunk_overlap st)) = chunk_index st"
    by (simp_all add: chunks_loop_body chunk_index_loop_body)
next
  assume r: "loop_after n tk u tokens src pg chunk_size chunk_overlap
         \<lparr>start_idx = 0, chunk_index = 0, chunks = []\<rparr> = Some st'"
    and c: "c' \<in> set (chunks st')"
  from loop_after_texts[OF r] c show "tc_text c' \<noteq> []" and "strip (tc_text c') = tc_text c'"
    by blast+
qed

text \<open>
  The theorem of C10 at a blank text, at the text \<open>ab\<close>, and at the tokens of two
  spaces and two letters, whose first window is blank.
\<close>

theorem chunk_text_never_blank_witness:
  "strip '' '' = []
   \<and> split_text_into_chunks char_tokenizer sample_uuid5_hex '' '' ''doc.pdf'' 1 2 1 = Some []
   \<and> split_text_into_chunks char_tokenizer sample_uuid5_hex ''ab'' ''doc.pdf'' 1 2 1 =
        Some [\<lparr>tc_id = ''doc__p1__c0__0f1f640e'', tc_text = ''ab'', tc_source_pdf = ''doc.pdf'',
                tc_page = 1, tc_token_count = 2\<rparr>]
   \<and> strip ''ab'' = ''ab''
   \<and> strip (decode char_tokenizer (py_slice [32, 32, 97, 98] 0 (min (0 + 2) (int (length [32, 32, 97, 98 :: nat]))))) = []
   \<and> chunks (fst (loop_body char_tokenizer sample_uuid5_hex [32, 32, 97, 98] ''doc.pdf'' 1 2 1
                  \<lparr>start_idx = 0, chunk_index = 0, chunks = []\<rparr>)) = []
   \<and> chunk_index (fst (loop_body char_tokenizer sample_uuid5_hex [32, 32, 97, 98] ''doc.pdf'' 1 2 1
                  \<lparr>start_idx = 0, chunk_index = 0, chunks = []\<rparr>)) = 0
   \<and> loop_after 2 char_tokenizer sample_uuid5_hex [32, 32, 97, 98] ''doc.pdf'' 1 2 1
        \<lparr>start_idx = 0, chunk_index = 0, chunks = []\<rparr> =
      Some \<lparr>start_idx = 2, chunk_index = 1,
            chunks = [\<lparr>tc_id = ''doc__p1__c0__0f1f640e'', tc_text = ''a'', tc_source_pdf = ''doc.pdf'',
                       tc_page = 1, tc_token_count = 2\<rparr>]\<rparr>
   \<and> strip ''a'' = ''a''"
proof -
  let ?c = "\<lparr>tc_id = ''doc__p1__c0__0f1f640e'', tc_text = ''ab'', tc_source_pdf = ''doc.pdf'',
             tc_page = 1, tc_token_count = 2\<rparr>"
  let ?a = "\<lparr>tc_id = ''doc__p1__c0__0f1f640e'', tc_text = ''a'', tc_source_pdf = ''doc.pdf'',
             tc_page = 1, tc_token_count = 2\<rparr>"
  have h1: "strip '' '' = []" by (simp add: strip_samples)
  have h2: "split_text_into_chunks char_tokenizer sample_uuid5_hex ''ab'' ''doc.pdf'' 1 2 1 = Some [?c]"
    by (simp add: split_text_single strip_samples_more char_tokenizer_samples generate_chunk_id_sample_1_0)
  have h3: "strip (decode char_tokenizer (py_slice [32, 32, 97, 98] 0 (min (0 + 2) (int (length [32, 32, 97, 98 :: nat]))))) = []"
    by (simp add: py_slice_def slice_bound_def char_tokenizer_samples strip_samples)
  note h4 = sample_blank_first_window
  note inst = chunk_text_never_blank
    [where blank = "'' ''" and tk = char_tokenizer and u = sample_uuid5_hex and src = "''doc.pdf''"
       and pg = 1 and chunk_size = 2 and chunk_overlap = 1 and page_text = "''ab''" and cks = "[?c]"
       and c = "?c" and tokens = "[32, 32, 97, 98]"
       and st = "\<lparr>start_idx = 0, chunk_index = 0, chunks = []\<rparr>" and n = 2
       and st' = "\<lparr>start_idx = 2, chunk_index = 1, chunks = [?a]\<rparr>" and c' = "?a"]
  from inst h1 h2 h3 h4 show ?thesis by (simp add: strip_samples_more)
qed

text \<open>
  C3 claims that the \<open>token_count\<close> of every chunk is the number of tokens the tokenizer
  gives for the chunk's \<open>text\<close>. The code counts the tokens before it strips the text.
  For the text made of the letter \<open>a\<close> and a line feed, which fits one chunk, the chunk's
  text is \<open>a\<close> (one token) and its \<open>token_count\<close> is 2. The sample tokenizer gives
  one token per character; on these two texts the tokenizer the code uses gives the same
  counts.
\<close>

theorem token_count_of_stripped_text_counterexample:
  "split_text_into_chunks char_tokenizer sample_uuid5_hex [CHR ''a'', CHR 0x0A] ''doc.pdf'' 1 800 100 =
     Some [\<lparr>tc_id = ''doc__p1__c0__0f1f640e'', tc_text = ''a'', tc_source_pdf = ''doc.pdf'',
             tc_page = 1, tc_token_count = 2\<rparr>]
   \<and> count_tokens char_tokenizer ''a'' = 1"
  by (simp add: split_text_single strip_samples char_tokenizer_samples_more count_tokens_def
      generate_chunk_id_sample_1_0)

text \<open>
  C3 as amended: \<open>token_count\<close> is the number of tokens of the window the chunk is cut
  from, counted before stripping. In the single-chunk path it is the token count of the
  input text as given, and the chunk's text is the stripped input. In the loop, a pass
  appends at most one chunk, whose \<open>token_count\<close> is the length of the token window and
  whose text is the stripped decoding of that window. So \<open>token_count\<close> is the token
  count of the chunk's text when the input fits one chunk and has no whitespace at either
  end.
\<close>

theorem token_count_counts_window:
  "(strip page_text \<noteq> [] \<longrightarrow> int (length (encode tk page_text)) \<le> chunk_size \<longrightarrow>
      (\<exists>c. split_text_into_chunks tk u page_text src pg chunk_size chunk_overlap = Some [c]
           \<and> tc_text c = strip page_text \<and> tc_token_count c = count_tokens tk page_text))
   \<and> (let chunk_tokens = py_slice tokens (start_idx st)
                            (min (start_idx st + chunk_size) (int (length tokens)))
      in chunks (fst (loop_body tk u tokens src pg chunk_size chunk_overlap st)) = chunks st
       \<or> (\<exists>c. chunks (fst (loop_body tk u tokens src pg chunk_size chunk_overlap st)) = chunks st @ [c]
              \<and> tc_text c = strip (decode tk chunk_tokens)
              \<and> tc_token_count c = int (length chunk_tokens)))
   \<and> (strip page_text = page_text \<longrightarrow> page_text \<noteq> [] \<longrightarrow>
        int (length (encode tk page_text)) \<le> chunk_size \<longrightarrow>
        (\<exists>c. split_text_into_chunks tk u page_text src pg chunk_size chunk_overlap = Some [c]
             \<and> tc_token_count c = count_tokens tk (tc_text c)))"
  by (simp add: split_text_single count_tokens_def chunks_loop_body Let_def)

text \<open>The amended C3 at the text \<open>alpha\<close>, which has no whitespace at either end.\<close>

theorem token_count_counts_window_witness:
  "strip ''alpha'' = ''alpha'' \<and> ''alpha'' \<noteq> [] \<and> int (length (encode char_tokenizer ''alpha'')) \<le> 800
   \<and> split_text_into_chunks char_tokenizer sample_uuid5_hex ''alpha'' ''doc.pdf'' 1 800 100 =
       Some [\<lparr>tc_id = ''doc__p1__c0__0f1f640e'', tc_text = ''alpha'', tc_source_pdf = ''doc.pdf'',
               tc_page = 1, tc_token_count = 5\<rparr>]
   \<and> count_tokens char_tokenizer ''alpha'' = 5"
proof -
  have h1: "strip ''alpha'' = ''alpha''" by (simp add: strip_samples)
  have h2: "int (length (encode char_tokenizer ''alpha'')) \<le> 800"
    by (simp add: char_tokenizer_samples_more)
  have h3: "generate_chunk_id sample_uuid5_hex ''doc.pdf'' 1 0 = ''doc__p1__c0__0f1f640e''"
    by (rule generate_chunk_id_sample_1_0)
  have h4: "count_tokens char_tokenizer ''alpha'' = 5"
    by (simp add: count_tokens_def char_tokenizer_samples_more)
  note inst = token_count_counts_window
    [where page_text = "''alpha''" and tk = char_tokenizer and u = sample_uuid5_hex
       and src = "''doc.pdf''" and pg = 1 and chunk_size = 800 and chunk_overlap = 100
       and tokens = "[]" and st = "\<lparr>start_idx = 0, chunk_index = 0, chunks = []\<rparr>"]
  from inst h1 h2 h4 have
    "\<exists>c. split_text_into_chunks char_tokenizer sample_uuid5_hex ''alpha'' ''doc.pdf'' 1 800 100 = Some [c]
         \<and> tc_text c = ''alpha'' \<and> tc_token_count c = 5"
    by simp
  then obtain c where c: "split_text_into_chunks char_tokenizer sample_uuid5_hex ''alpha'' ''doc.pdf'' 1 800 100 = Some [c]"
    by blast
  have "split_text_into_chunks char_tokenizer sample_uuid5_hex ''alpha'' ''doc.pdf'' 1 800 100 =
       Some [\<lparr>tc_id = ''doc__p1__c0__0f1f640e'', tc_text = ''alpha'', tc_source_pdf = ''doc.pdf'',
               tc_page = 1, tc_token_count = 5\<rparr>]"
    by (simp add: split_text_single h1 h3 char_tokenizer_samples_more)
  with c h1 h2 h4 show ?thesis by simp
qed

text \<open>
  C5 claims that the suffix of a chunk id is derived from the chunk's content, so that
  chunks with the same source, page and index but different text get different ids.
  \<^verbatim>\<open>generate_chunk_id\<close> does not receive the text: the texts \<open>alpha\<close> and \<open>beta\<close>, chunked
  as page 1 of the same file, get the same id.
\<close>

theorem same_id_for_different_text_counterexample:
  "split_text_into_chunks char_tokenizer sample_uuid5_hex ''alpha'' ''doc.pdf'' 1 800 100 =
     Some [\<lparr>tc_id = ''doc__p1__c0__0f1f640e'', tc_text = ''alpha'', tc_source_pdf = ''doc.pdf'',
             tc_page = 1, tc_token_count = 5\<rparr>]
   \<and> split_text_into_chunks char_tokenizer sample_uuid5_hex ''beta'' ''doc.pdf'' 1 800 100 =
     Some [\<lparr>tc_id = ''doc__p1__c0__0f1f640e'', tc_text = ''beta'', tc_source_pdf = ''doc.pdf'',
             tc_page = 1, tc_token_count = 4\<rparr>]"
  by (simp add: split_text_single strip_samples char_tokenizer_samples_more generate_chunk_id_sample_1_0)

text \<open>
  C5 as amended: the id of a chunk is a function of the source file name, the page
  number and the index of the chunk within the page alone (the suffix is the digest of
  these three, not of the content), in the list a call returns and in the list the
  loop is building. Re-chunking the same input gives the same ids, and chunks with the
  same source, page and index have the same id whatever their text.
\<close>

theorem chunk_id_from_source_page_index:
  "(split_text_into_chunks tk u page_text src pg chunk_size chunk_overlap = Some cks \<longrightarrow>
      i < length cks \<longrightarrow> tc_id (cks ! i) = generate_chunk_id u src pg (int i))
   \<and> (loop_after n tk u tokens src pg chunk_size chunk_overlap
         \<lparr>start_idx = 0, chunk_index = 0, chunks = []\<rparr> = Some st \<longrightarrow>
      j < length (chunks st) \<longrightarrow> tc_id (chunks st ! j) = generate_chunk_id u src pg (int j))"
proof (intro conjI impI)
  assume r: "split_text_into_chunks tk u page_text src pg chunk_size chunk_overlap = Some cks"
    and i: "i < length cks"
  from split_text_returns_cases[OF r] i
  show "tc_id (cks ! i) = generate_chunk_id u src pg (int i)" by (auto simp: Let_def)
next
  assume r: "loop_after n tk u tokens src pg chunk_size chunk_overlap
               \<lparr>start_idx = 0, chunk_index = 0, chunks = []\<rparr> = Some st"
    and j: "j < length (chunks st)"
  from loop_after_ids[OF r] j
  show "tc_id (chunks st ! j) = generate_chunk_id u src pg (int j)" by simp
qed

text \<open>
  The amended C5 at the text \<open>beta\<close>, and at the second chunk of a run of the loop.
\<close>

theorem chunk_id_from_source_page_index_witness:
  "split_text_into_chunks char_tokenizer sample_uuid5_hex ''beta'' ''doc.pdf'' 1 800 100 =
     Some [\<lparr>tc_id = ''doc__p1__c0__0f1f640e'', tc_text = ''beta'', tc_source_pdf = ''doc.pdf'',
             tc_page = 1, tc_token_count = 4\<rparr>]
   \<and> ''doc__p1__c0__0f1f640e'' = generate_chunk_id sample_uuid5_hex ''doc.pdf'' 1 0
   \<and> loop_after 2 char_tokenizer sample_uuid5_hex [97, 98, 99, 100, 101] ''doc.pdf'' 1 3 1
        \<lparr>start_idx = 0, chunk_index = 0, chunks = []\<rparr> =
      Some \<lparr>start_idx = 4, chunk_index = 2,
            chunks = [\<lparr>tc_id = ''doc__p1__c0__0f1f640e'', tc_text = ''abc'', tc_source_pdf = ''doc.pdf'',
                       tc_page = 1, tc_token_count = 3\<rparr>,
                      \<lparr>tc_id = ''doc__p1__c1__1f1f640e'', tc_text = ''cde'', tc_source_pdf = ''doc.pdf'',
                       tc_page = 1, tc_token_count = 3\<rparr>]\<rparr>
   \<and> ''doc__p1__c1__1f1f640e'' = generate_chunk_id sample_uuid5_hex ''doc.pdf'' 1 1"
proof -
  let ?c = "\<lparr>tc_id = ''doc__p1__c0__0f1f640e'', tc_text = ''beta'', tc_source_pdf = ''doc.pdf'',
             tc_page = 1, tc_token_count = 4\<rparr>"
  have h1: "split_text_into_chunks char_tokenizer sample_uuid5_hex ''beta'' ''doc.pdf'' 1 800 100 = Some [?c]"
    by (simp add: split_text_single strip_samples char_tokenizer_samples_more generate_chunk_id_sample_1_0)
  note h2 = sample_two_passes
  note inst = chunk_id_from_source_page_index
    [where tk = char_tokenizer and u = sample_uuid5_hex and page_text = "''beta''" and src = "''doc.pdf''"
       and pg = 1 and chunk_size = 800 and chunk_overlap = 100 and cks = "[?c]" and i = 0]
  note inst2 = chunk_id_from_source_page_index
    [where tk = char_tokenizer and u = sample_uuid5_hex and src = "''doc.pdf''"
       and pg = 1 and chunk_size = 3 and chunk_overlap = 1 and n = 2 and tokens = "[97, 98, 99, 100, 101]"
       and j = 1 and page_text = "[]" and cks = "[]" and i = 0
       and st = "\<lparr>start_idx = 4, chunk_index = 2,
            chunks = [\<lparr>tc_id = ''doc__p1__c0__0f1f640e'', tc_text = ''abc'', tc_source_pdf = ''doc.pdf'',
                       tc_page = 1, tc_token_count = 3\<rparr>,
                      \<lparr>tc_id = ''doc__p1__c1__1f1f640e'', tc_text = ''cde'', tc_source_pdf = ''doc.pdf'',
                       tc_page = 1, tc_token_count = 3\<rparr>]\<rparr>"]
  from inst h1 have "''doc__p1__c0__0f1f640e'' = generate_chunk_id sample_uuid5_hex ''doc.pdf'' 1 0"
    by simp
  moreover from inst2 h2 have "''doc__p1__c1__1f1f640e'' = generate_chunk_id sample_uuid5_hex ''doc.pdf'' 1 1"
    by simp
  ultimately show ?thesis using h1 h2 by simp
qed

section \<open>Evaluation of the sample environment\<close>

lemma sample_env_clients:
  "get_pinecone_client sample_env = Inr ''pk''"
  "get_embedding_client sample_env = Inr ''ok''"
  "get_index_name sample_env = Inr ''pdf-rag''"
  by (simp_all add: get_pinecone_client_def get_embedding_client_def get_index_name_def
      require_env_def sample_env_def)

lemma sample_index_not_empty:
  "is_index_empty sample_env (reversing_services emb 5) (Some ''pk'') = Inr False"
  by (simp add: is_index_empty_def get_index_def sample_env_clients reversing_services_def)

section \<open>Claims about the embedding generator\<close>

subsection \<open>Sorting a batch's answer by index\<close>

lemma map_item_index_tag_items: "map item_index (tag_items emb batch) = map int [0..<length batch]"
proof -
  have "map item_index (tag_items emb batch) = map (int \<circ> fst) (zip [0..<length batch] batch)"
    by (simp add: tag_items_def case_prod_unfold comp_def)
  also have "\<dots> = map int (map fst (zip [0..<length batch] batch))"
    by (simp only: map_map)
  also have "map fst (zip [0..<length batch] batch) = [0..<length batch]"
    by (rule map_fst_zip) simp
  finally show ?thesis .
qed

lemma map_item_embedding_tag_items: "map item_embedding (tag_items emb batch) = map emb batch"
proof -
  have "map item_embedding (tag_items emb batch) = map (emb \<circ> snd) (zip [0..<length batch] batch)"
    by (simp add: tag_items_def case_prod_unfold comp_def)
  also have "\<dots> = map emb (map snd (zip [0..<length batch] batch))"
    by (simp only: map_map)
  also have "map snd (zip [0..<length batch] batch) = batch"
    by (rule map_snd_zip) simp
  finally show ?thesis .
qed

lemma sort_tagged_items:
  assumes "mset data = mset (tag_items emb batch)"
  shows "map item_embedding (sort_key item_index data) = map emb batch"
proof -
  have "distinct (map item_index (tag_items emb batch))"
    by (simp add: map_item_index_tag_items distinct_map inj_on_def)
  then have "inj_on item_index (set (tag_items emb batch))"
    by (simp add: distinct_map)
  moreover from assms have "set data = set (tag_items emb batch)"
    by (rule mset_eq_setD)
  ultimately have "inj_on item_index (set data)" by simp
  moreover have "sorted (map item_index (tag_items emb batch))"
    by (simp add: map_item_index_tag_items sorted_map)
  ultimately have "sort_key item_index data = tag_items emb batch"
    using assms by (intro sort_key_inj_key_eq)
  then show ?thesis by (simp add: map_item_embedding_tag_items)
qed

lemma embeddings_loop_in_order:
  assumes "\<And>batch. batch \<noteq> [] \<Longrightarrow> length batch \<le> BATCH_SIZE \<Longrightarrow>
             \<exists>data. embeddings_create svc batch = Inr data \<and> mset data = mset (tag_items emb batch)"
  shows "fst (embeddings_loop svc texts i acc eff) = Inr (acc @ map emb (drop i texts))"
  using assms
proof (induction svc texts i acc eff rule: embeddings_loop.induct)
  case (1 svc texts i acc eff)
  show ?case
  proof (cases "i < length texts")
    case False
    then show ?thesis by (simp add: embeddings_loop.simps)
  next
    case True
    define batch where "batch = py_slice texts (int i) (int (i + BATCH_SIZE))"
    have batch: "batch = take BATCH_SIZE (drop i texts)"
      unfolding batch_def using py_slice_nat[of texts i "i + BATCH_SIZE"] by simp
    with True have ne: "batch \<noteq> []" and le: "length batch \<le> BATCH_SIZE"
      by (simp_all add: BATCH_SIZE_def)
    from "1.prems"[OF ne le] obtain data where
      data: "embeddings_create svc batch = Inr data" "mset data = mset (tag_items emb batch)"
      by blast
    have sorted_data: "map item_embedding (sort_key item_index data) = map emb batch"
      using data(2) by (rule sort_tagged_items)
    have "fst (embeddings_loop svc texts (i + BATCH_SIZE) (acc @ map emb batch)
                 (eff\<lparr>embedding_requests := embedding_requests eff @ [batch]\<rparr>))
            = Inr ((acc @ map emb batch) @ map emb (drop (i + BATCH_SIZE) texts))"
      using "1.IH"[OF True batch_def refl data(1) refl refl "1.prems"] sorted_data by simp
    moreover have "map emb batch @ map emb (drop (i + BATCH_SIZE) texts) = map emb (drop i texts)"
      unfolding batch map_append[symmetric]
      by (simp add: add.commute[of i] flip: drop_drop)
    moreover have "py_slice texts (int i) (int i + int BATCH_SIZE) = batch"
      by (simp add: batch_def)
    ultimately show ?thesis
      using True data(1) sorted_data
      by (subst embeddings_loop.simps) (simp add: Let_def)
  qed
qed

text \<open>
  C6: when the embedding service answers every batch it is sent (a batch is never empty
  and never longer than \<open>BATCH_SIZE\<close>) with the items it owes, in any order, and a client
  can be built, \<^verbatim>\<open>generate_embeddings_batch\<close> returns as many vectors as there are texts,
  and the \<open>i\<close>-th vector is the embedding of the \<open>i\<close>-th text, for any number of texts.
\<close>

theorem generate_embeddings_batch_keeps_order:
  assumes "\<And>batch. batch \<noteq> [] \<Longrightarrow> length batch \<le> BATCH_SIZE \<Longrightarrow>
             \<exists>data. embeddings_create svc batch = Inr data \<and> mset data = mset (tag_items emb batch)"
    and "(case client of None \<Rightarrow> get_embedding_client env | Some c \<Rightarrow> Inr c) = Inr key"
  shows "\<exists>out. fst (generate_embeddings_batch env svc texts client eff) = Inr out
           \<and> length out = length texts
           \<and> (\<forall>i < length texts. out ! i = emb (texts ! i))"
proof -
  have "fst (generate_embeddings_batch env svc texts client eff) = Inr (map emb texts)"
    using embeddings_loop_in_order[OF assms(1), of texts 0 "[]" eff] assms(2)
    by (simp add: generate_embeddings_batch_def)
  then show ?thesis by simp
qed

text \<open>The sample service answers every batch with the items it owes, reversed.\<close>

lemma reversing_services_answers:
  "\<exists>data. embeddings_create (reversing_services emb n) batch = Inr data
          \<and> mset data = mset (tag_items emb batch)"
  by (simp add: reversing_services_def)

text \<open>The theorem of C6 at three texts, answered in reverse order.\<close>

theorem generate_embeddings_batch_keeps_order_witness:
  "embeddings_create (reversing_services length 0) [''a'', ''bcd'', ''ef''] =
     Inr [\<lparr>item_index = 2, item_embedding = 2\<rparr>, \<lparr>item_index = 1, item_embedding = 3\<rparr>,
          \<lparr>item_index = 0, item_embedding = 1\<rparr>]
   \<and> get_embedding_client sample_env = Inr ''ok''
   \<and> fst (generate_embeddings_batch sample_env (reversing_services length 0)
             [''a'', ''bcd'', ''ef''] None no_effects) = Inr [1, 3, 2]"
proof -
  let ?svc = "reversing_services length 0 :: nat services"
  let ?texts = "[''a'', ''bcd'', ''ef'']"
  have h1: "\<And>batch. batch \<noteq> [] \<Longrightarrow> length batch \<le> BATCH_SIZE \<Longrightarrow>
              \<exists>data. embeddings_create ?svc batch = Inr data \<and> mset data = mset (tag_items length batch)"
    by (rule reversing_services_answers)
  have h2: "(case None of None \<Rightarrow> get_embedding_client sample_env | Some c \<Rightarrow> Inr c) = Inr ''ok''"
    by (simp add: sample_env_clients)
  from generate_embeddings_batch_keeps_order[OF h1 h2, of ?texts no_effects]
  obtain out where out: "fst (generate_embeddings_batch sample_env ?svc ?texts None no_effects) = Inr out"
    and len: "length out = 3" and nth: "\<forall>i < 3. out ! i = length (?texts ! i)"
    by auto
  from nth have "out ! 0 = 1" "out ! Suc 0 = 3" "out ! Suc (Suc 0) = 2"
    by (simp_all add: numeral_3_eq_3)
  with len have "out = [1, 3, 2]"
    by (intro nth_equalityI) (auto simp: less_Suc_eq numeral_3_eq_3)
  moreover have "embeddings_create ?svc ?texts =
     Inr [\<lparr>item_index = 2, item_embedding = 2\<rparr>, \<lparr>item_index = 1, item_embedding = 3\<rparr>,
          \<lparr>item_index = 0, item_embedding = 1\<rparr>]"
    by (simp add: reversing_services_def tag_items_def upt_rec)
  ultimately show ?thesis using out by (simp add: sample_env_clients)
qed

section \<open>Claims about the retrieval gate\<close>

lemma foldl_keep_greater:
  "foldl (\<lambda>best x. if x > best then x else best) (b::real) xs = Max (set (b # xs))"
proof -
  have "(\<lambda>best x. if x > best then x else best) = (\<lambda>best x::real. max x best)"
    by (auto simp: fun_eq_iff max_def)
  then have "foldl (\<lambda>best x. if x > best then x else best) b xs = fold max xs b"
    by (simp add: foldl_conv_fold)
  also have "\<dots> = Max (set (b # xs))"
    by (simp only: Max.set_eq_fold)
  finally show ?thesis .
qed

lemma check_retrieval_quality_Max:
  "cs \<noteq> [] \<Longrightarrow> check_retrieval_quality cs = (SIMILARITY_THRESHOLD \<le> Max (rc_score ` set cs))"
  by (cases cs) (simp_all add: foldl_keep_greater Let_def del: Max_insert)

text \<open>
  C7: \<^verbatim>\<open>check_retrieval_quality\<close> accepts a non-empty list whose best score is exactly
  the threshold 0.3, rejects a non-empty list whose best score is strictly below the
  threshold, and rejects the empty list.
\<close>

theorem retrieval_gate_boundary:
  "(cs \<noteq> [] \<longrightarrow> Max (rc_score ` set cs) = SIMILARITY_THRESHOLD \<longrightarrow> check_retrieval_quality cs)
   \<and> (cs' \<noteq> [] \<longrightarrow> Max (rc_score ` set cs') < SIMILARITY_THRESHOLD \<longrightarrow> \<not> check_retrieval_quality cs')
   \<and> \<not> check_retrieval_quality []"
  by (simp add: check_retrieval_quality_Max not_le del: Max_less_iff)

text \<open>The theorem of C7 at two lists, with best score the threshold and 0.25.\<close>

theorem retrieval_gate_boundary_witness:
  "[\<lparr>rc_id = ''a'', rc_text = ''t'', rc_source_pdf = ''doc.pdf'', rc_page = 1, rc_score = 1 / 8\<rparr>,
    \<lparr>rc_id = ''b'', rc_text = ''t'', rc_source_pdf = ''doc.pdf'', rc_page = 2, rc_score = 5404319552844595 / 18014398509481984\<rparr>] \<noteq> []
   \<and> Max (rc_score ` set
        [\<lparr>rc_id = ''a'', rc_text = ''t'', rc_source_pdf = ''doc.pdf'', rc_page = 1, rc_score = 1 / 8\<rparr>,
         \<lparr>rc_id = ''b'', rc_text = ''t'', rc_source_pdf = ''doc.pdf'', rc_page = 2, rc_score = 5404319552844595 / 18014398509481984\<rparr>])
       = SIMILARITY_THRESHOLD
   \<and> check_retrieval_quality
        [\<lparr>rc_id = ''a'', rc_text = ''t'', rc_source_pdf = ''doc.pdf'', rc_page = 1, rc_score = 1 / 8\<rparr>,
         \<lparr>rc_id = ''b'', rc_text = ''t'', rc_source_pdf = ''doc.pdf'', rc_page = 2, rc_score = 5404319552844595 / 18014398509481984\<rparr>]
   \<and> Max (rc_score ` set
        [\<lparr>rc_id = ''a'', rc_text = ''t'', rc_source_pdf = ''doc.pdf'', rc_page = 1, rc_score = 1 / 8\<rparr>,
         \<lparr>rc_id = ''c'', rc_text = ''t'', rc_source_pdf = ''doc.pdf'', rc_page = 3, rc_score = 1 / 4\<rparr>])
       < SIMILARITY_THRESHOLD
   \<and> \<not> check_retrieval_quality
        [\<lparr>rc_id = ''a'', rc_text = ''t'', rc_source_pdf = ''doc.pdf'', rc_page = 1, rc_score = 1 / 8\<rparr>,
         \<lparr>rc_id = ''c'', rc_text = ''t'', rc_source_pdf = ''doc.pdf'', rc_page = 3, rc_score = 1 / 4\<rparr>]"
proof -
  let ?a = "\<lparr>rc_id = ''a'', rc_text = ''t'', rc_source_pdf = ''doc.pdf'', rc_page = 1, rc_score = 1 / 8\<rparr>"
  let ?b = "\<lparr>rc_id = ''b'', rc_text = ''t'', rc_source_pdf = ''doc.pdf'', rc_page = 2, rc_score = 5404319552844595 / 18014398509481984\<rparr>"
  let ?c = "\<lparr>rc_id = ''c'', rc_text = ''t'', rc_source_pdf = ''doc.pdf'', rc_page = 3, rc_score = 1 / 4\<rparr>"
  have h1: "Max (rc_score ` set [?a, ?b]) = SIMILARITY_THRESHOLD"
    by (simp add: SIMILARITY_THRESHOLD_def)
  have h2: "Max (rc_score ` set [?a, ?c]) < SIMILARITY_THRESHOLD"
    by (simp add: SIMILARITY_THRESHOLD_def)
  from retrieval_gate_boundary[of "[?a, ?b]" "[?a, ?c]"] h1 h2 show ?thesis by simp
qed

section \<open>Claims about the vector index client\<close>

text \<open>
  When the store accepts every batch it is sent, the loop of \<^verbatim>\<open>upsert_chunks\<close> sends all
  the vectors from position \<open>i\<close> on, in batches that are not empty and not longer than
  \<open>UPSERT_BATCH_SIZE\<close>, and adds their number to the count.
\<close>

lemma upsert_loop_sends_all:
  assumes "\<And>batch. batch \<noteq> [] \<Longrightarrow> length batch \<le> UPSERT_BATCH_SIZE \<Longrightarrow> index_upsert svc batch = None"
  shows "\<exists>bs. upsert_loop svc vectors i sent eff =
                (Inr (sent + length (drop i vectors)),
                 eff\<lparr>upsert_requests := upsert_requests eff @ bs\<rparr>)
             \<and> concat bs = drop i vectors
             \<and> list_all (\<lambda>b. b \<noteq> [] \<and> length b \<le> UPSERT_BATCH_SIZE) bs"
  using assms
proof (induction svc vectors i sent eff rule: upsert_loop.induct)
  case (1 svc vectors i sent eff)
  show ?case
  proof (cases "i < length vectors")
    case False
    then have "upsert_loop svc vectors i sent eff = (Inr sent, eff)"
      by (simp add: upsert_loop.simps)
    with False show ?thesis by (intro exI[of _ "[]"]) simp
  next
    case True
    define batch where "batch = py_slice vectors (int i) (int (i + UPSERT_BATCH_SIZE))"
    have batch: "batch = take UPSERT_BATCH_SIZE (drop i vectors)"
      unfolding batch_def using py_slice_nat[of vectors i "i + UPSERT_BATCH_SIZE"] by simp
    with True have ne: "batch \<noteq> []" and le: "length batch \<le> UPSERT_BATCH_SIZE"
      by (simp_all add: UPSERT_BATCH_SIZE_def)
    have ok: "index_upsert svc batch = None" by (rule "1.prems"[OF ne le])
    define eff' where "eff' = eff\<lparr>upsert_requests := upsert_requests eff @ [batch]\<rparr>"
    from "1.IH"[OF True batch_def eff'_def ok "1.prems"]
    obtain bs where rec: "upsert_loop svc vectors (i + UPSERT_BATCH_SIZE) (sent + length batch) eff' =
          (Inr (sent + length batch + length (drop (i + UPSERT_BATCH_SIZE) vectors)),
           eff'\<lparr>upsert_requests := upsert_requests eff' @ bs\<rparr>)"
      and cat: "concat bs = drop (i + UPSERT_BATCH_SIZE) vectors"
      and all: "list_all (\<lambda>b. b \<noteq> [] \<and> length b \<le> UPSERT_BATCH_SIZE) bs"
      by blast
    have split: "batch @ drop (i + UPSERT_BATCH_SIZE) vectors = drop i vectors"
      unfolding batch by (simp add: add.commute[of i] flip: drop_drop)
    then have len: "length batch + length (drop (i + UPSERT_BATCH_SIZE) vectors) = length (drop i vectors)"
      by (metis length_append)
    have slice: "py_slice vectors (int i) (int i + int UPSERT_BATCH_SIZE) = batch"
      by (simp add: batch_def)
    have "upsert_loop svc vectors i sent eff =
            (Inr (sent + length (drop i vectors)),
             eff\<lparr>upsert_requests := upsert_requests eff @ (batch # bs)\<rparr>)"
      using True ok rec len
      by (subst upsert_loop.simps) (simp add: Let_def slice eff'_def add.assoc)
    moreover have "concat (batch # bs) = drop i vectors"
      using cat split by simp
    moreover have "list_all (\<lambda>b. b \<noteq> [] \<and> length b \<le> UPSERT_BATCH_SIZE) (batch # bs)"
      using all ne le by simp
    ultimately show ?thesis by blast
  qed
qed

text \<open>
  Two chunks with their embeddings, written through the write path of the sample
  services: one request, holding for each chunk its id, its embedding, its text, its
  source and its page.
\<close>

lemma upsert_two_chunks_sample:
  "upsert_chunks sample_env (reversing_services length 0)
     [\<lparr>tc_id = ''doc__p1__c0__0f1f640e'', tc_text = ''alpha'', tc_source_pdf = ''doc.pdf'',
        tc_page = 1, tc_token_count = 5\<rparr>,
      \<lparr>tc_id = ''doc__p2__c0__0f2f640e'', tc_text = ''beta'', tc_source_pdf = ''doc.pdf'',
        tc_page = 2, tc_token_count = 4\<rparr>] [5, 4 :: nat] None no_effects
   = (Inr 2,
      \<lparr>embedding_requests = [],
       upsert_requests =
         [[\<lparr>vec_id = ''doc__p1__c0__0f1f640e'', vec_values = 5, vec_text = ''alpha'',
             vec_source_pdf = ''doc.pdf'', vec_page = 1\<rparr>,
           \<lparr>vec_id = ''doc__p2__c0__0f2f640e'', vec_values = 4, vec_text = ''beta'',
             vec_source_pdf = ''doc.pdf'', vec_page = 2\<rparr>]]\<rparr>)"
  by code_simp

text \<open>
  C8: when the numbers of chunks and of embeddings differ, \<^verbatim>\<open>upsert_chunks\<close> raises the
  precondition error and the log of requests is as before the call: nothing was sent to
  the store. When they agree, the index can be reached and the store accepts every batch,
  it returns the number of chunks, and the batches it has sent hold, in order, one entry
  for every pair: the entry at position \<open>i\<close> has the id, the text, the source and the
  page of the \<open>i\<close>-th chunk and the \<open>i\<close>-th embedding as its values.
\<close>

theorem upsert_chunks_precondition:
  "(length cks' \<noteq> length embeddings' \<longrightarrow>
      upsert_chunks env svc cks' embeddings' client eff =
        (Inl (ValueError ''Number of chunks must match number of embeddings''), eff))
   \<and> (length cks = length embeddings \<longrightarrow> get_index env client = Inr handle \<longrightarrow>
       (\<forall>batch. batch \<noteq> [] \<longrightarrow> length batch \<le> UPSERT_BATCH_SIZE \<longrightarrow> index_upsert svc batch = None) \<longrightarrow>
       (\<exists>bs. upsert_chunks env svc cks embeddings client eff =
               (Inr (length cks), eff\<lparr>upsert_requests := upsert_requests eff @ bs\<rparr>)
            \<and> concat bs = map (\<lambda>(chunk, embedding). make_vector chunk embedding) (zip cks embeddings)
            \<and> length (concat bs) = length cks
            \<and> list_all (\<lambda>b. b \<noteq> [] \<and> length b \<le> UPSERT_BATCH_SIZE) bs
            \<and> concat bs =
                map (\<lambda>(chunk, embedding).
                       \<lparr>vec_id = tc_id chunk, vec_values = embedding, vec_text = tc_text chunk,
                        vec_source_pdf = tc_source_pdf chunk, vec_page = tc_page chunk\<rparr>)
                    (zip cks embeddings)
            \<and> (\<forall>i < length cks.
                  vec_id (concat bs ! i) = tc_id (cks ! i)
                  \<and> vec_values (concat bs ! i) = embeddings ! i
                  \<and> vec_text (concat bs ! i) = tc_text (cks ! i)
                  \<and> vec_source_pdf (concat bs ! i) = tc_source_pdf (cks ! i)
                  \<and> vec_page (concat bs ! i) = tc_page (cks ! i))))"
proof (intro conjI impI)
  assume "length cks' \<noteq> length embeddings'"
  then show "upsert_chunks env svc cks' embeddings' client eff =
        (Inl (ValueError ''Number of chunks must match number of embeddings''), eff)"
    by (simp add: upsert_chunks_def)
next
  assume len: "length cks = length embeddings" and idx: "get_index env client = Inr handle"
    and acc: "\<forall>batch. batch \<noteq> [] \<longrightarrow> length batch \<le> UPSERT_BATCH_SIZE \<longrightarrow> index_upsert svc batch = None"
  define vectors where "vectors = map (\<lambda>(chunk, embedding). make_vector chunk embedding) (zip cks embeddings)"
  from acc have "\<And>batch. batch \<noteq> [] \<Longrightarrow> length batch \<le> UPSERT_BATCH_SIZE \<Longrightarrow> index_upsert svc batch = None"
    by blast
  from upsert_loop_sends_all[OF this, of vectors 0 0 eff]
  obtain bs where run: "upsert_loop svc vectors 0 0 eff =
        (Inr (length vectors), eff\<lparr>upsert_requests := upsert_requests eff @ bs\<rparr>)"
    and cat: "concat bs = vectors"
    and all: "list_all (\<lambda>b. b \<noteq> [] \<and> length b \<le> UPSERT_BATCH_SIZE) bs"
    by auto
  have n: "length vectors = length cks" using len by (simp add: vectors_def)
  have fields: "vectors =
      map (\<lambda>(chunk, embedding).
             \<lparr>vec_id = tc_id chunk, vec_values = embedding, vec_text = tc_text chunk,
              vec_source_pdf = tc_source_pdf chunk, vec_page = tc_page chunk\<rparr>)
          (zip cks embeddings)"
    by (simp add: vectors_def make_vector_def)
  have nth: "vec_id (vectors ! i) = tc_id (cks ! i)
           \<and> vec_values (vectors ! i) = embeddings ! i
           \<and> vec_text (vectors ! i) = tc_text (cks ! i)
           \<and> vec_source_pdf (vectors ! i) = tc_source_pdf (cks ! i)
           \<and> vec_page (vectors ! i) = tc_page (cks ! i)" if "i < length cks" for i
    using that len by (simp add: fields)
  have res: "upsert_chunks env svc cks embeddings client eff =
               (Inr (length cks), eff\<lparr>upsert_requests := upsert_requests eff @ bs\<rparr>)"
    using len idx run n by (simp add: upsert_chunks_def vectors_def[symmetric])
  show "\<exists>bs. upsert_chunks env svc cks embeddings client eff =
               (Inr (length cks), eff\<lparr>upsert_requests := upsert_requests eff @ bs\<rparr>)
            \<and> concat bs = map (\<lambda>(chunk, embedding). make_vector chunk embedding) (zip cks embeddings)
            \<and> length (concat bs) = length cks
            \<and> list_all (\<lambda>b. b \<noteq> [] \<and> length b \<le> UPSERT_BATCH_SIZE) bs
            \<and> concat bs =
                map (\<lambda>(chunk, embedding).
                       \<lparr>vec_id = tc_id chunk, vec_values = embedding, vec_text = tc_text chunk,
                        vec_source_pdf = tc_source_pdf chunk, vec_page = tc_page chunk\<rparr>)
                    (zip cks embeddings)
            \<and> (\<forall>i < length cks.
                  vec_id (concat bs ! i) = tc_id (cks ! i)
                  \<and> vec_values (concat bs ! i) = embeddings ! i
                  \<and> vec_text (concat bs ! i) = tc_text (cks ! i)
                  \<and> vec_source_pdf (concat bs ! i) = tc_source_pdf (cks ! i)
                  \<and> vec_page (concat bs ! i) = tc_page (cks ! i))"
  proof (intro exI[of _ bs] conjI allI impI)
    show "upsert_chunks env svc cks embeddings client eff =
               (Inr (length cks), eff\<lparr>upsert_requests := upsert_requests eff @ bs\<rparr>)" by (rule res)
    show "concat bs = map (\<lambda>(chunk, embedding). make_vector chunk embedding) (zip cks embeddings)"
      using cat by (simp add: vectors_def)
    show "length (concat bs) = length cks" using cat n by simp
    show "list_all (\<lambda>b. b \<noteq> [] \<and> length b \<le> UPSERT_BATCH_SIZE) bs" by (rule all)
    show "concat bs =
                map (\<lambda>(chunk, embedding).
                       \<lparr>vec_id = tc_id chunk, vec_values = embedding, vec_text = tc_text chunk,
                        vec_source_pdf = tc_source_pdf chunk, vec_page = tc_page chunk\<rparr>)
                    (zip cks embeddings)"
      using cat fields by simp
  next
    fix i assume "i < length cks"
    from nth[OF this] cat
    show "vec_id (concat bs ! i) = tc_id (cks ! i)"
      and "vec_values (concat bs ! i) = embeddings ! i"
      and "vec_text (concat bs ! i) = tc_text (cks ! i)"
      and "vec_source_pdf (concat bs ! i) = tc_source_pdf (cks ! i)"
      and "vec_page (concat bs ! i) = tc_page (cks ! i)"
      by simp_all
  qed
qed

text \<open>
  The theorem of C8 at one chunk with no embedding, and at two chunks with two
  embeddings, with the request that reaches the store written out.
\<close>

theorem upsert_chunks_precondition_witness:
  "length [\<lparr>tc_id = ''doc__p1__c0__0f1f640e'', tc_text = ''alpha'', tc_source_pdf = ''doc.pdf'',
            tc_page = 1, tc_token_count = 5\<rparr>] \<noteq> length ([] :: nat list)
   \<and> upsert_chunks sample_env (reversing_services length 0)
        [\<lparr>tc_id = ''doc__p1__c0__0f1f640e'', tc_text = ''alpha'', tc_source_pdf = ''doc.pdf'',
            tc_page = 1, tc_token_count = 5\<rparr>] [] None no_effects
       = (Inl (ValueError ''Number of chunks must match number of embeddings''), no_effects)
   \<and> length [\<lparr>tc_id = ''doc__p1__c0__0f1f640e'', tc_text = ''alpha'', tc_source_pdf = ''doc.pdf'',
              tc_page = 1, tc_token_count = 5\<rparr>,
             \<lparr>tc_id = ''doc__p2__c0__0f2f640e'', tc_text = ''beta'', tc_source_pdf = ''doc.pdf'',
              tc_page = 2, tc_token_count = 4\<rparr>] = length [5, 4 :: nat]
   \<and> get_index sample_env None = Inr (''pk'', ''pdf-rag'')
   \<and> upsert_chunks sample_env (reversing_services length 0)
        [\<lparr>tc_id = ''doc__p1__c0__0f1f640e'', tc_text = ''alpha'', tc_source_pdf = ''doc.pdf'',
           tc_page = 1, tc_token_count = 5\<rparr>,
         \<lparr>tc_id = ''doc__p2__c0__0f2f640e'', tc_text = ''beta'', tc_source_pdf = ''doc.pdf'',
           tc_page = 2, tc_token_count = 4\<rparr>] [5, 4] None no_effects
      = (Inr 2,
         \<lparr>embedding_requests = [],
          upsert_requests =
            [[\<lparr>vec_id = ''doc__p1__c0__0f1f640e'', vec_values = 5, vec_text = ''alpha'',
                vec_source_pdf = ''doc.pdf'', vec_page = 1\<rparr>,
              \<lparr>vec_id = ''doc__p2__c0__0f2f640e'', vec_values = 4, vec_text = ''beta'',
                vec_source_pdf = ''doc.pdf'', vec_page = 2\<rparr>]]\<rparr>)"
proof -
  let ?c1 = "\<lparr>tc_id = ''doc__p1__c0__0f1f640e'', tc_text = ''alpha'', tc_source_pdf = ''doc.pdf'',
            tc_page = 1, tc_token_count = 5\<rparr>"
  let ?c2 = "\<lparr>tc_id = ''doc__p2__c0__0f2f640e'', tc_text = ''beta'', tc_source_pdf = ''doc.pdf'',
            tc_page = 2, tc_token_count = 4\<rparr>"
  let ?v1 = "\<lparr>vec_id = ''doc__p1__c0__0f1f640e'', vec_values = 5 :: nat, vec_text = ''alpha'',
                vec_source_pdf = ''doc.pdf'', vec_page = 1\<rparr>"
  let ?v2 = "\<lparr>vec_id = ''doc__p2__c0__0f2f640e'', vec_values = 4 :: nat, vec_text = ''beta'',
                vec_source_pdf = ''doc.pdf'', vec_page = 2\<rparr>"
  let ?svc = "reversing_services length 0 :: nat services"
  have h1: "get_index sample_env None = Inr (''pk'', ''pdf-rag'')"
    by (simp add: get_index_def sample_env_clients)
  have h2: "\<forall>batch. batch \<noteq> [] \<longrightarrow> length batch \<le> UPSERT_BATCH_SIZE \<longrightarrow> index_upsert ?svc batch = None"
    by (simp add: reversing_services_def)
  note inst = upsert_chunks_precondition
    [where cks' = "[?c1]" and embeddings' = "[] :: nat list" and cks = "[?c1, ?c2]" and embeddings = "[5, 4]"
       and env = sample_env and svc = ?svc and client = None and eff = no_effects
       and handle = "(''pk'', ''pdf-rag'')"]
  from inst h1 h2 obtain bs where
    res: "upsert_chunks sample_env ?svc [?c1, ?c2] [5, 4] None no_effects =
            (Inr 2, no_effects\<lparr>upsert_requests := upsert_requests no_effects @ bs\<rparr>)"
    and cat: "concat bs = [?v1, ?v2]"
    and mis: "upsert_chunks sample_env ?svc [?c1] [] None no_effects
       = (Inl (ValueError ''Number of chunks must match number of embeddings''), no_effects)"
    by auto
  have log: "snd (upsert_chunks sample_env ?svc [?c1, ?c2] [5, 4] None no_effects) =
       \<lparr>embedding_requests = [], upsert_requests = [[?v1, ?v2]]\<rparr>"
    by (simp add: upsert_two_chunks_sample)
  with res have "bs = [[?v1, ?v2]]" by (simp add: no_effects_def)
  with res mis h1 show ?thesis by (simp add: no_effects_def)
qed

section \<open>Claims about the indexing run\<close>

lemma is_index_empty_stats:
  assumes "is_index_empty env svc client = Inr b"
  shows "\<exists>stats. get_index_stats env svc client = Inr stats"
  using assms by (auto simp: is_index_empty_def get_index_stats_def Let_def split: sum.splits)

text \<open>
  C9: when \<^verbatim>\<open>run_indexing\<close> is called without \<open>force\<close>, both clients can be built and the
  emptiness check answers that the index is not empty, the run returns \<open>False\<close> and the
  log of requests is as before the call: no request was sent to the embedding service
  and nothing was written to the store, whatever the documents are.
\<close>

theorem run_indexing_skips_non_empty_index:
  assumes "\<not> force"
    and "get_pinecone_client env = Inr pinecone_client"
    and "get_embedding_client env = Inr embedding_client"
    and "is_index_empty env svc (Some pinecone_client) = Inr False"
  shows "run_indexing env svc tk u loaded force eff = Some (Inr False, eff)"
proof -
  from is_index_empty_stats[OF assms(4)] obtain stats where
    "get_index_stats env svc (Some pinecone_client) = Inr stats" by blast
  with assms show ?thesis by (simp add: run_indexing_def)
qed

text \<open>The theorem of C9 at an index that reports five vectors.\<close>

theorem run_indexing_skips_non_empty_index_witness:
  "\<not> False
   \<and> get_pinecone_client sample_env = Inr ''pk''
   \<and> get_embedding_client sample_env = Inr ''ok''
   \<and> is_index_empty sample_env (reversing_services length 5) (Some ''pk'') = Inr False
   \<and> run_indexing sample_env (reversing_services length 5) char_tokenizer sample_uuid5_hex
        (Inr [\<lparr>doc_filename = ''doc.pdf'',
               doc_pages = [\<lparr>pc_filename = ''doc.pdf'', pc_page_number = 1, pc_text = ''alpha''\<rparr>]\<rparr>])
        False no_effects
       = Some (Inr False, \<lparr>embedding_requests = [], upsert_requests = []\<rparr>)"
proof -
  have h1: "\<not> False" by simp
  note h2 = sample_env_clients(1)
  note h3 = sample_env_clients(2)
  have h4: "is_index_empty sample_env (reversing_services length 5) (Some ''pk'') = Inr False"
    by (rule sample_index_not_empty)
  from run_indexing_skips_non_empty_index[OF h1 h2 h3 h4] h2 h3 h4
  show ?thesis by (simp add: no_effects_def)
qed

text \<open>
  For comparison, the same run against an index that reports no vector: one request
  goes to the embedding service and one batch is written to the store.
\<close>

lemma run_indexing_on_empty_index:
  "run_indexing sample_env (reversing_services length 0) char_tokenizer sample_uuid5_hex
        (Inr [\<lparr>doc_filename = ''doc.pdf'',
               doc_pages = [\<lparr>pc_filename = ''doc.pdf'', pc_page_number = 1, pc_text = ''alpha''\<rparr>]\<rparr>])
        False no_effects
   = Some (Inr True,
       \<lparr>embedding_requests = [[''alpha'']],
        upsert_requests = [[\<lparr>vec_id = ''doc__p1__c0__0f1f640e'', vec_values = 5, vec_text = ''alpha'',
                              vec_source_pdf = ''doc.pdf'', vec_page = 1\<rparr>]]\<rparr>)"
  by code_simp

end
